theory Spec2Isabelle
  imports Complex_Main "HOL-Library.Multiset"
begin

section \<open>Memory card game: data model\<close>

text \<open>
  The types of the game (\<^verbatim>\<open>types/index.ts\<close>). JavaScript numbers that the engine only ever
  uses as counters, seconds and points are integers here; numbers that come out of a
  division (\<^verbatim>\<open>cards.length / 2\<close>) or out of \<^verbatim>\<open>Math.random()\<close> are reals. Text that may hold
  emoji (card faces, thumbnails) is a list of Unicode code points; identifiers are ASCII
  strings.
\<close>

datatype Difficulty = EASY | MEDIUM | HARD

type_synonym face = "nat list"

record Card =
  card_id :: string
  card_value :: face
  imageUrl :: "face option"
  isFlipped :: bool
  isMatched :: bool
  pairId :: string

record GameConfig =
  rows :: int
  columns :: int
  totalCards :: int
  timeLimit :: "int option"

record HighScore =
  hs_id :: string
  playerName :: "string option"
  hs_moves :: int
  hs_time :: int
  hs_difficulty :: Difficulty
  hs_date :: string
  hs_score :: int

record CardTheme =
  theme_id :: string
  theme_name :: string
  description :: string
  theme_cards :: "face list"
  thumbnail :: "face option"

section \<open>Constants (\<^verbatim>\<open>utils/constants.ts\<close>)\<close>

fun GAME_CONFIGS :: "Difficulty \<Rightarrow> GameConfig" where
  "GAME_CONFIGS EASY = \<lparr>rows = 2, columns = 4, totalCards = 8, timeLimit = None\<rparr>"
| "GAME_CONFIGS MEDIUM = \<lparr>rows = 3, columns = 4, totalCards = 12, timeLimit = Some 120\<rparr>"
| "GAME_CONFIGS HARD = \<lparr>rows = 4, columns = 5, totalCards = 20, timeLimit = Some 180\<rparr>"

definition MATCH_BONUS :: int where "MATCH_BONUS = 100"
definition TIME_BONUS_MULTIPLIER :: int where "TIME_BONUS_MULTIPLIER = 10"
definition PERFECT_GAME_BONUS :: int where "PERFECT_GAME_BONUS = 500"
definition MOVE_PENALTY :: int where "MOVE_PENALTY = 5"

definition MAX_HIGH_SCORES :: nat where "MAX_HIGH_SCORES = 10"

fun PERFECT_MOVES :: "Difficulty \<Rightarrow> int" where
  "PERFECT_MOVES EASY = 8"
| "PERFECT_MOVES MEDIUM = 12"
| "PERFECT_MOVES HARD = 20"

definition theme_animals :: CardTheme where
  "theme_animals =
    \<lparr>theme_id = ''animals'', theme_name = ''Animals'',
     description = ''Cute animal friends'',
     theme_cards =
      [[0x1F436], [0x1F431], [0x1F42D], [0x1F439], [0x1F430],
       [0x1F98A], [0x1F43B], [0x1F43C], [0x1F428], [0x1F42F]],
     thumbnail = Some [0x1F43E]\<rparr>"

definition theme_fruits :: CardTheme where
  "theme_fruits =
    \<lparr>theme_id = ''fruits'', theme_name = ''Fruits'',
     description = ''Fresh and colorful fruits'',
     theme_cards =
      [[0x1F34E], [0x1F34A], [0x1F34B], [0x1F34C], [0x1F349],
       [0x1F347], [0x1F353], [0x1F351], [0x1F352], [0x1F95D]],
     thumbnail = Some [0x1F34E]\<rparr>"

definition theme_sports :: CardTheme where
  "theme_sports =
    \<lparr>theme_id = ''sports'', theme_name = ''Sports'',
     description = ''Popular sports and activities'',
     theme_cards =
      [[0x26BD], [0x1F3C0], [0x1F3C8], [0x26BE], [0x1F3BE],
       [0x1F3D0], [0x1F3D3], [0x1F3F8], [0x1F3D2], [0x1F3D1]],
     thumbnail = Some [0x26BD]\<rparr>"

definition theme_vehicles :: CardTheme where
  "theme_vehicles =
    \<lparr>theme_id = ''vehicles'', theme_name = ''Vehicles'',
     description = ''Cars, planes and more'',
     theme_cards =
      [[0x1F697], [0x1F695], [0x1F699], [0x1F68C], [0x1F68E],
       [0x1F3CE, 0xFE0F], [0x1F693], [0x1F691], [0x1F692], [0x1F690]],
     thumbnail = Some [0x1F697]\<rparr>"

definition theme_nature :: CardTheme where
  "theme_nature =
    \<lparr>theme_id = ''nature'', theme_name = ''Nature'',
     description = ''Beautiful nature elements'',
     theme_cards =
      [[0x1F338], [0x1F33A], [0x1F33B], [0x1F337], [0x1F339],
       [0x1F33C], [0x1F33F], [0x1F340], [0x1F333], [0x1F332]],
     thumbnail = Some [0x1F338]\<rparr>"

definition theme_food :: CardTheme where
  "theme_food =
    \<lparr>theme_id = ''food'', theme_name = ''Food'',
     description = ''Delicious food items'',
     theme_cards =
      [[0x1F355], [0x1F354], [0x1F35F], [0x1F32D], [0x1F37F],
       [0x1F9C1], [0x1F370], [0x1F36A], [0x1F369], [0x1F366]],
     thumbnail = Some [0x1F355]\<rparr>"

definition theme_space :: CardTheme where
  "theme_space =
    \<lparr>theme_id = ''space'', theme_name = ''Space'',
     description = ''Explore the cosmos'',
     theme_cards =
      [[0x1F30D], [0x1F30E], [0x1F30F], [0x1F315], [0x1F316],
       [0x1F317], [0x1F318], [0x1F311], [0x2B50], [0x1F31F]],
     thumbnail = Some [0x1F680]\<rparr>"

definition theme_weather :: CardTheme where
  "theme_weather =
    \<lparr>theme_id = ''weather'', theme_name = ''Weather'',
     description = ''Weather and seasons'',
     theme_cards =
      [[0x2600, 0xFE0F], [0x1F324, 0xFE0F], [0x26C5], [0x1F325, 0xFE0F], [0x2601, 0xFE0F],
       [0x1F326, 0xFE0F], [0x1F327, 0xFE0F], [0x26C8, 0xFE0F], [0x1F329, 0xFE0F], [0x2744, 0xFE0F]],
     thumbnail = Some [0x2600, 0xFE0F]\<rparr>"

definition CARD_THEMES :: "CardTheme list" where
  "CARD_THEMES =
    [theme_animals, theme_fruits, theme_sports, theme_vehicles,
     theme_nature, theme_food, theme_space, theme_weather]"

definition DEFAULT_THEME_ID :: string where
  "DEFAULT_THEME_ID = ''animals''"

section \<open>The environment: clock and random source\<close>

text \<open>
  \<^verbatim>\<open>Math.random()\<close> and \<^verbatim>\<open>Date.now()\<close> are inputs of the program. The environment fixes
  what the n-th call of each returns; the world counts the calls made so far, and every
  function that draws a number or reads the clock passes the world on. How JavaScript
  prints a fraction in base 36 (\<^verbatim>\<open>Number.prototype.toString(36)\<close>) is left to the engine by
  the language standard, so it is a component of the environment too, as is the rendering
  of a clock reading as an ISO date (\<^verbatim>\<open>new Date().toISOString()\<close>).
\<close>

record env =
  random :: "nat \<Rightarrow> real"
  now :: "nat \<Rightarrow> nat"
  toString36 :: "real \<Rightarrow> string"
  toISOString :: "nat \<Rightarrow> string"

record world =
  randomCalls :: nat
  nowCalls :: nat

definition mathRandom :: "env \<Rightarrow> world \<Rightarrow> real \<times> world" where
  "mathRandom e w = (random e (randomCalls w), w\<lparr>randomCalls := Suc (randomCalls w)\<rparr>)"

definition dateNow :: "env \<Rightarrow> world \<Rightarrow> nat \<times> world" where
  "dateNow e w = (now e (nowCalls w), w\<lparr>nowCalls := Suc (nowCalls w)\<rparr>)"

text \<open>The decimal rendering of a natural number, as a template literal prints it.\<close>

definition digitChar :: "nat \<Rightarrow> char" where
  "digitChar d = ''0123456789'' ! d"

fun numberToString :: "nat \<Rightarrow> string" where
  "numberToString n =
     (if n < 10 then [digitChar n]
      else numberToString (n div 10) @ [digitChar (n mod 10)])"

declare numberToString.simps [simp del]

section \<open>Deck generator (\<^verbatim>\<open>utils/gameHelpers.ts\<close>)\<close>

text \<open>
  \<^verbatim>\<open>shuffleArray\<close>: the loop \<^verbatim>\<open>for (let i = length - 1; i > 0; i--)\<close> draws
  \<^verbatim>\<open>j = Math.floor(Math.random() * (i + 1))\<close> and swaps positions i and j of the copy.
\<close>

fun shuffleLoop :: "env \<Rightarrow> nat \<Rightarrow> 'a list \<Rightarrow> world \<Rightarrow> 'a list \<times> world" where
  "shuffleLoop e 0 shuffled w = (shuffled, w)"
| "shuffleLoop e (Suc k) shuffled w =
     (let i = Suc k;
          (r, w') = mathRandom e w;
          j = nat \<lfloor>r * real (i + 1)\<rfloor>
      in shuffleLoop e k (shuffled[i := shuffled ! j, j := shuffled ! i]) w')"

definition shuffleArray :: "env \<Rightarrow> 'a list \<Rightarrow> world \<Rightarrow> 'a list \<times> world" where
  "shuffleArray e array w = shuffleLoop e (length array - 1) array w"

text \<open>
  \<^verbatim>\<open>generateId\<close>: the clock reading, a dash, and up to nine characters of the base-36
  rendering of a random draw after its leading \<^verbatim>\<open>0.\<close> (\<^verbatim>\<open>substr(2, 9)\<close>).
\<close>

definition generateId :: "env \<Rightarrow> world \<Rightarrow> string \<times> world" where
  "generateId e w =
     (let (t, w1) = dateNow e w;
          (r, w2) = mathRandom e w1
      in (numberToString t @ ''-'' @ take 9 (drop 2 (toString36 e r)), w2))"

definition getCardTheme :: "string \<Rightarrow> CardTheme" where
  "getCardTheme themeId =
     (case find (\<lambda>t. theme_id t = themeId) CARD_THEMES of
        Some theme \<Rightarrow> theme
      | None \<Rightarrow> the (find (\<lambda>t. theme_id t = DEFAULT_THEME_ID) CARD_THEMES))"

text \<open>The \<^verbatim>\<open>forEach\<close> of \<^verbatim>\<open>generateCards\<close>: two cards are pushed for each selected face.\<close>

fun createPairs :: "env \<Rightarrow> face list \<Rightarrow> nat \<Rightarrow> world \<Rightarrow> Card list \<times> world" where
  "createPairs e [] index w = ([], w)"
| "createPairs e (cardValue # rest) index w =
     (let pid = ''pair-'' @ numberToString index;
          (id1, w1) = generateId e w;
          (id2, w2) = generateId e w1;
          (cards, w3) = createPairs e rest (Suc index) w2
      in (\<lparr>card_id = id1, card_value = cardValue, imageUrl = Some cardValue,
            isFlipped = False, isMatched = False, pairId = pid\<rparr> #
          \<lparr>card_id = id2, card_value = cardValue, imageUrl = Some cardValue,
            isFlipped = False, isMatched = False, pairId = pid\<rparr> # cards, w3))"

text \<open>The pair identifier of the index-th selected face: \<^verbatim>\<open>pair-\<close> followed by the index.\<close>

definition pairIdOf :: "nat \<Rightarrow> string" where
  "pairIdOf index = ''pair-'' @ numberToString index"

text \<open>An omitted theme id (\<^verbatim>\<open>None\<close>) takes the parameter's default.\<close>

definition generateCards ::
  "env \<Rightarrow> Difficulty \<Rightarrow> string option \<Rightarrow> world \<Rightarrow> Card list \<times> world" where
  "generateCards e difficulty themeId w =
     (let config = GAME_CONFIGS difficulty;
          theme = getCardTheme (case themeId of None \<Rightarrow> DEFAULT_THEME_ID | Some t \<Rightarrow> t);
          totalPairs = totalCards config div 2;
          (shuffledFaces, w1) = shuffleArray e (theme_cards theme) w;
          selectedCards = take (nat totalPairs) shuffledFaces;
          (cards, w2) = createPairs e selectedCards 0 w1
      in shuffleArray e cards w2)"

definition checkCardsMatch :: "Card \<Rightarrow> Card \<Rightarrow> bool" where
  "checkCardsMatch card1 card2 \<longleftrightarrow> pairId card1 = pairId card2 \<and> card_id card1 \<noteq> card_id card2"

definition isGameWon :: "Card list \<Rightarrow> bool" where
  "isGameWon cards \<longleftrightarrow> length cards > 0 \<and> list_all isMatched cards"

text \<open>
  The identifiers \<^verbatim>\<open>generateId\<close> returns, in call order, from a given world on; and those
  it returns while \<^verbatim>\<open>generateCards\<close> builds a deck (the calls start after the faces were
  shuffled).
\<close>

fun idsFrom :: "env \<Rightarrow> world \<Rightarrow> nat \<Rightarrow> string list" where
  "idsFrom e w 0 = []"
| "idsFrom e w (Suc n) = (let (i, w') = generateId e w in i # idsFrom e w' n)"

definition generatedIds :: "env \<Rightarrow> Difficulty \<Rightarrow> string option \<Rightarrow> world \<Rightarrow> string list" where
  "generatedIds e difficulty themeId w =
     (let theme = getCardTheme (case themeId of None \<Rightarrow> DEFAULT_THEME_ID | Some t \<Rightarrow> t);
          w1 = snd (shuffleArray e (theme_cards theme) w)
      in idsFrom e w1 (2 * nat (totalCards (GAME_CONFIGS difficulty) div 2)))"

section \<open>Score calculator (\<^verbatim>\<open>calculateScore\<close> in \<^verbatim>\<open>utils/gameHelpers.ts\<close>)\<close>

text \<open>
  \<^verbatim>\<open>if (config.timeLimit)\<close> tests truthiness: an absent limit and a limit of 0 both take the
  else branch. On integers \<^verbatim>\<open>Math.floor\<close> is the identity.
\<close>

definition calculateScore :: "int \<Rightarrow> int \<Rightarrow> Difficulty \<Rightarrow> int \<Rightarrow> int" where
  "calculateScore moves timeElapsed difficulty matchedPairs =
    (let config = GAME_CONFIGS difficulty;
         totalPairs = totalCards config div 2;
         perfectMoves = PERFECT_MOVES difficulty;
         score0 = matchedPairs * MATCH_BONUS;
         score4 =
           (if matchedPairs = totalPairs then
              (let score1 = score0 + 1000;
                   score2 = (if moves = perfectMoves then score1 + PERFECT_GAME_BONUS
                             else score1);
                   score3 =
                     (case timeLimit config of
                        Some limit \<Rightarrow>
                          (if limit \<noteq> 0 then
                             (let timeRemaining = limit - timeElapsed in
                                if timeRemaining > 0
                                then score2 + timeRemaining * TIME_BONUS_MULTIPLIER
                                else score2)
                           else if timeElapsed < 120
                             then score2 + (120 - timeElapsed) * TIME_BONUS_MULTIPLIER
                             else score2)
                      | None \<Rightarrow>
                          (if timeElapsed < 120
                           then score2 + (120 - timeElapsed) * TIME_BONUS_MULTIPLIER
                           else score2));
                   extraMoves = moves - perfectMoves
               in if extraMoves > 0 then score3 - extraMoves * MOVE_PENALTY else score3)
            else score0)
     in max 0 score4)"

text \<open>The pair count of a difficulty, as every caller computes it: \<^verbatim>\<open>config.totalCards / 2\<close>.\<close>

definition pairCount :: "Difficulty \<Rightarrow> int" where
  "pairCount difficulty = totalCards (GAME_CONFIGS difficulty) div 2"

section \<open>JavaScript numbers\<close>














section \<open>Persistence of the leaderboard (\<^verbatim>\<open>utils/localStorage.ts\<close>)\<close>

text \<open>
  Of the browser's key-value store the model keeps the entry under the key
  \<^verbatim>\<open>HIGH_SCORES\<close>: it is missing, or it cannot be read or parsed, or it holds a list of
  entries. \<^verbatim>\<open>localStorage.setItem\<close> may throw (quota, private mode); whether it does is a
  flag of the store. \<^verbatim>\<open>saveToStorage\<close> catches the exception, returns \<^verbatim>\<open>false\<close> and leaves
  the store as it was; \<^verbatim>\<open>loadFromStorage\<close> returns the default on a missing or unreadable
  entry.
\<close>

datatype item = Missing | Unreadable | Stored "HighScore list"

record storage =
  highScoresItem :: item
  setItemThrows :: bool

definition saveToStorage :: "storage \<Rightarrow> HighScore list \<Rightarrow> bool \<times> storage" where
  "saveToStorage st data =
     (if setItemThrows st then (False, st)
      else (True, st\<lparr>highScoresItem := Stored data\<rparr>))"

definition loadFromStorage :: "storage \<Rightarrow> HighScore list \<Rightarrow> HighScore list" where
  "loadFromStorage st defaultValue =
     (case highScoresItem st of
        Missing \<Rightarrow> defaultValue
      | Unreadable \<Rightarrow> defaultValue
      | Stored data \<Rightarrow> data)"

text \<open>
  The comparator of \<^verbatim>\<open>saveHighScores\<close>: negative when \<open>a\<close> goes before \<open>b\<close>.
  \<^verbatim>\<open>Array.prototype.sort\<close> is stable; for a comparator that is a total preorder, as this
  one is, its result is the one a stable insertion sort computes.
\<close>

definition compareHighScores :: "HighScore \<Rightarrow> HighScore \<Rightarrow> int" where
  "compareHighScores a b =
     (if hs_score b \<noteq> hs_score a then hs_score b - hs_score a
      else hs_time a - hs_time b)"

fun insertSorted :: "('a \<Rightarrow> 'a \<Rightarrow> int) \<Rightarrow> 'a \<Rightarrow> 'a list \<Rightarrow> 'a list" where
  "insertSorted cmp x [] = [x]"
| "insertSorted cmp x (y # ys) =
     (if cmp x y \<le> 0 then x # y # ys else y # insertSorted cmp x ys)"

definition sortWith :: "('a \<Rightarrow> 'a \<Rightarrow> int) \<Rightarrow> 'a list \<Rightarrow> 'a list" where
  "sortWith cmp xs = foldr (insertSorted cmp) xs []"

definition saveHighScores :: "storage \<Rightarrow> HighScore list \<Rightarrow> bool \<times> storage" where
  "saveHighScores st scores =
     (let sortedScores = take MAX_HIGH_SCORES (sortWith compareHighScores scores)
      in saveToStorage st sortedScores)"

definition loadHighScores :: "storage \<Rightarrow> HighScore list" where
  "loadHighScores st = loadFromStorage st []"

definition addHighScore :: "storage \<Rightarrow> HighScore \<Rightarrow> bool \<times> storage" where
  "addHighScore st newScore =
     (let currentScores = loadHighScores st;
          updatedScores = currentScores @ [newScore]
      in saveHighScores st updatedScores)"

definition isHighScore :: "storage \<Rightarrow> int \<Rightarrow> bool" where
  "isHighScore st score =
     (let highScores = loadHighScores st
      in if length highScores < MAX_HIGH_SCORES then True
         else (let lowestHighScore = highScores ! (length highScores - 1)
               in score > hs_score lowestHighScore))"

text \<open>
  The order of the leaderboard in the words of the specification: score descending, ties
  broken by time ascending.
\<close>

definition leaderboardOrdered :: "HighScore list \<Rightarrow> bool" where
  "leaderboardOrdered hs =
     sorted_wrt (\<lambda>a b. hs_score a > hs_score b \<or>
                       (hs_score a = hs_score b \<and> hs_time a \<le> hs_time b)) hs"

text \<open>The same order as a relation on two entries.\<close>

definition hsBefore :: "HighScore \<Rightarrow> HighScore \<Rightarrow> bool" where
  "hsBefore a b \<longleftrightarrow> hs_score a > hs_score b \<or> (hs_score a = hs_score b \<and> hs_time a \<le> hs_time b)"

section \<open>The timer\<close>

text \<open>
  Modelled from the spec: the hook \<^verbatim>\<open>useTimer\<close> that \<^verbatim>\<open>useGameLogic\<close> imports is not among
  the sources. Its states and operations are those of section 4.3 of the specification:
  start (IDLE or STOPPED to RUNNING, zeroing the accumulator only from IDLE), pause
  (RUNNING to PAUSED), resume (PAUSED to RUNNING), stop (any state to STOPPED), reset (any
  state to IDLE, zeroing the accumulator), and a one-second tick counted while RUNNING.
  The engine only calls these operations and reads the elapsed seconds.
\<close>

datatype TimerStatus = IDLE | RUNNING | PAUSED | STOPPED

record timer =
  status :: TimerStatus
  time :: int

definition timer_start :: "timer \<Rightarrow> timer" where
  "timer_start t =
     (case status t of
        IDLE \<Rightarrow> \<lparr>status = RUNNING, time = 0\<rparr>
      | STOPPED \<Rightarrow> t\<lparr>status := RUNNING\<rparr>
      | RUNNING \<Rightarrow> t
      | PAUSED \<Rightarrow> t)"

definition timer_pause :: "timer \<Rightarrow> timer" where
  "timer_pause t = (if status t = RUNNING then t\<lparr>status := PAUSED\<rparr> else t)"

definition timer_resume :: "timer \<Rightarrow> timer" where
  "timer_resume t = (if status t = PAUSED then t\<lparr>status := RUNNING\<rparr> else t)"

definition timer_stop :: "timer \<Rightarrow> timer" where
  "timer_stop t = t\<lparr>status := STOPPED\<rparr>"

definition timer_reset :: "timer \<Rightarrow> timer" where
  "timer_reset t = \<lparr>status = IDLE, time = 0\<rparr>"

definition timer_tick :: "timer \<Rightarrow> timer" where
  "timer_tick t = (if status t = RUNNING then t\<lparr>time := time t + 1\<rparr> else t)"

section \<open>The game engine (\<^verbatim>\<open>hooks/useGameLogic.ts\<close>)\<close>

text \<open>
  The hook's props: difficulty, theme, and which of the optional callbacks the caller
  passed. A call \<^verbatim>\<open>if (onFlip) onFlip()\<close> appends a notification to the session's log
  when the callback is there.
\<close>

record options =
  difficulty :: Difficulty
  themeId :: "string option"
  onGameComplete :: bool
  onMatch :: bool
  onNoMatch :: bool
  onFlip :: bool

text \<open>
  The statistics handed to \<^verbatim>\<open>onGameComplete\<close>; the congratulation text, which depends on
  nothing but moves, time and difficulty, is left out.
\<close>

record GameCompletionStats =
  gc_moves :: int
  gc_time :: int
  gc_score :: int
  gc_difficulty :: Difficulty
  isNewHighScore :: bool

datatype notification = Flip | Match | NoMatch | GameComplete GameCompletionStats

text \<open>
  The callback held by \<^verbatim>\<open>processingTimeoutRef\<close>, with the values its closure captured. The
  comparison scheduled by the second click of a pair captured the two cards and, through
  \<^verbatim>\<open>handleMatch\<close>, the matched pairs, moves and elapsed time of the render of that click.
\<close>

datatype timeout =
  CompareTimeout Card Card int int int
| UnflipTimeout Card Card

text \<open>
  The session: the hook's state variables, its two refs, the timer, and the parts of the
  outside world it writes to (leaderboard store, notification log, clock and random
  source).
\<close>

record session =
  cards :: "Card list"
  flippedCards :: "Card list"
  matchedPairs :: int
  moves :: int
  score :: int
  isGameStarted :: bool
  isGameComplete :: bool
  isGamePaused :: bool
  isProcessing :: bool
  theTimer :: timer
  processingTimeoutRef :: "timeout option"
  gameCompleteTriggeredRef :: bool
  props :: options
  notifications :: "notification list"
  localStorage :: storage
  theWorld :: world

definition emit :: "notification \<Rightarrow> session \<Rightarrow> session" where
  "emit n s = s\<lparr>notifications := notifications s @ [n]\<rparr>"

definition totalPairs :: "session \<Rightarrow> real" where
  "totalPairs s = real (length (cards s)) / 2"




text \<open>
  \<^verbatim>\<open>initializeGame\<close>. Clearing the pending timeout empties \<^verbatim>\<open>processingTimeoutRef\<close>.
\<close>

definition initializeGame :: "env \<Rightarrow> session \<Rightarrow> session" where
  "initializeGame e s =
     (let (newCards, w') = generateCards e (difficulty (props s)) (themeId (props s)) (theWorld s)
      in s\<lparr>cards := newCards,
           flippedCards := [],
           matchedPairs := 0,
           moves := 0,
           score := 0,
           isGameStarted := False,
           isGameComplete := False,
           isGamePaused := False,
           isProcessing := False,
           gameCompleteTriggeredRef := False,
           theTimer := timer_reset (theTimer s),
           processingTimeoutRef := None,
           theWorld := w'\<rparr>)"

definition startGame :: "session \<Rightarrow> session" where
  "startGame s =
     s\<lparr>isGameStarted := True, isGamePaused := False, theTimer := timer_start (theTimer s)\<rparr>"

text \<open>
  \<^verbatim>\<open>resetGame\<close>, \<^verbatim>\<open>pauseGame\<close>: the snapshot of a suspended game lives under a storage key
  of its own, which no function here reads; writing and clearing it is not modelled.
\<close>

definition resetGame :: "env \<Rightarrow> session \<Rightarrow> session" where
  "resetGame e s = initializeGame e s"

definition pauseGame :: "session \<Rightarrow> session" where
  "pauseGame s =
     (if \<not> isGameStarted s \<or> isGameComplete s then s
      else s\<lparr>isGamePaused := True, theTimer := timer_pause (theTimer s)\<rparr>)"

definition resumeGame :: "session \<Rightarrow> session" where
  "resumeGame s =
     (if \<not> isGamePaused s then s
      else s\<lparr>isGamePaused := False, theTimer := timer_resume (theTimer s)\<rparr>)"

definition canFlipCard :: "session \<Rightarrow> Card \<Rightarrow> bool" where
  "canFlipCard s aCard =
     (if \<not> isGameStarted s \<or> isGameComplete s \<or> isGamePaused s \<or> isProcessing s then False
      else if isMatched aCard \<or> isFlipped aCard then False
      else if length (flippedCards s) \<ge> 2 then False
      else True)"

definition flipCard :: "string \<Rightarrow> session \<Rightarrow> session" where
  "flipCard cardId s =
     s\<lparr>cards := map (\<lambda>card. if card_id card = cardId then card\<lparr>isFlipped := True\<rparr> else card)
                   (cards s)\<rparr>"

definition unflipCards :: "string list \<Rightarrow> session \<Rightarrow> session" where
  "unflipCards cardIds s =
     s\<lparr>cards := map (\<lambda>card. if card_id card \<in> set cardIds then card\<lparr>isFlipped := False\<rparr>
                           else card) (cards s)\<rparr>"

definition markCardsAsMatched :: "string list \<Rightarrow> session \<Rightarrow> session" where
  "markCardsAsMatched cardIds s =
     s\<lparr>cards := map (\<lambda>card. if card_id card \<in> set cardIds
                           then card\<lparr>isMatched := True, isFlipped := True\<rparr>
                           else card) (cards s)\<rparr>"

text \<open>
  \<^verbatim>\<open>handleMatch\<close>, run by the comparison timeout. The counter of matched pairs is bumped
  from the current state (\<^verbatim>\<open>prev => prev + 1\<close>); the score is computed from the values the
  closure captured.
\<close>

definition handleMatch :: "Card \<Rightarrow> Card \<Rightarrow> int \<Rightarrow> int \<Rightarrow> int \<Rightarrow> session \<Rightarrow> session" where
  "handleMatch card1 card2 capturedPairs capturedMoves capturedTime s =
     (let s1 = markCardsAsMatched [card_id card1, card_id card2] s;
          s2 = s1\<lparr>matchedPairs := matchedPairs s1 + 1, flippedCards := []\<rparr>;
          newMatchedPairs = capturedPairs + 1;
          newScore = calculateScore (capturedMoves + 1) capturedTime (difficulty (props s))
                       newMatchedPairs;
          s3 = s2\<lparr>score := newScore\<rparr>;
          s4 = (if onMatch (props s) then emit Match s3 else s3)
      in s4\<lparr>isProcessing := False\<rparr>)"

definition handleNoMatch :: "Card \<Rightarrow> Card \<Rightarrow> session \<Rightarrow> session" where
  "handleNoMatch card1 card2 s = s\<lparr>processingTimeoutRef := Some (UnflipTimeout card1 card2)\<rparr>"

definition unflipTimeout :: "Card \<Rightarrow> Card \<Rightarrow> session \<Rightarrow> session" where
  "unflipTimeout card1 card2 s =
     (let s1 = unflipCards [card_id card1, card_id card2] s;
          s2 = s1\<lparr>flippedCards := [], isProcessing := False\<rparr>
      in if onNoMatch (props s) then emit NoMatch s2 else s2)"

text \<open>
  \<^verbatim>\<open>handleCardClick\<close>. The card appended to \<^verbatim>\<open>flippedCards\<close> is the object found in
  \<^verbatim>\<open>cards\<close> before the flip.
\<close>

definition handleCardClick :: "session \<Rightarrow> string \<Rightarrow> session" where
  "handleCardClick s cardId =
     (case find (\<lambda>c. card_id c = cardId) (cards s) of
        None \<Rightarrow> s
      | Some clicked \<Rightarrow>
          if \<not> canFlipCard s clicked then s
          else
            (let s1 = (if \<not> isGameStarted s then startGame s else s);
                 s2 = flipCard cardId s1;
                 s3 = (if onFlip (props s) then emit Flip s2 else s2);
                 newFlippedCards = flippedCards s @ [clicked];
                 s4 = s3\<lparr>flippedCards := newFlippedCards\<rparr>
             in if length newFlippedCards = 2
                then s4\<lparr>isProcessing := True,
                        moves := moves s4 + 1,
                        processingTimeoutRef :=
                          Some (CompareTimeout (newFlippedCards ! 0) (newFlippedCards ! 1)
                                  (matchedPairs s) (moves s) (time (theTimer s)))\<rparr>
                else s4))"

text \<open>The timeout held by \<^verbatim>\<open>processingTimeoutRef\<close> fires; a timeout fires once.\<close>

definition processingTimeoutFires :: "session \<Rightarrow> session" where
  "processingTimeoutFires s =
     (case processingTimeoutRef s of
        None \<Rightarrow> s
      | Some (CompareTimeout firstCard secondCard capturedPairs capturedMoves capturedTime) \<Rightarrow>
          (let s0 = s\<lparr>processingTimeoutRef := None\<rparr>
           in if checkCardsMatch firstCard secondCard
              then handleMatch firstCard secondCard capturedPairs capturedMoves capturedTime s0
              else handleNoMatch firstCard secondCard s0)
      | Some (UnflipTimeout card1 card2) \<Rightarrow>
          unflipTimeout card1 card2 (s\<lparr>processingTimeoutRef := None\<rparr>))"

text \<open>
  \<^verbatim>\<open>handleGameCompletion\<close>. The player statistics and the snapshot of a suspended game
  live under storage keys of their own; updating and clearing them is not modelled. The
  callback is handed to \<^verbatim>\<open>setTimeout\<close> and nothing cancels it: it is logged where it is
  scheduled.
\<close>

definition handleGameCompletion :: "env \<Rightarrow> session \<Rightarrow> session" where
  "handleGameCompletion e s =
     (if gameCompleteTriggeredRef s then s
      else
        (let s1 = s\<lparr>gameCompleteTriggeredRef := True,
                     isGameComplete := True,
                     theTimer := timer_stop (theTimer s)\<rparr>;
             finalScore = calculateScore (moves s) (time (theTimer s)) (difficulty (props s))
                            (matchedPairs s);
             s2 = s1\<lparr>score := finalScore\<rparr>;
             isNew = isHighScore (localStorage s) finalScore;
             s3 = (if isNew then
                     (let (newId, w1) = generateId e (theWorld s2);
                          (t, w2) = dateNow e w1;
                          highScore = \<lparr>hs_id = newId, playerName = None, hs_moves = moves s,
                                       hs_time = time (theTimer s),
                                       hs_difficulty = difficulty (props s),
                                       hs_date = toISOString e t, hs_score = finalScore\<rparr>;
                          (ok, st) = addHighScore (localStorage s2) highScore
                      in s2\<lparr>localStorage := st, theWorld := w2\<rparr>)
                   else s2);
             completionStats = \<lparr>gc_moves = moves s, gc_time = time (theTimer s),
                                gc_score = finalScore, gc_difficulty = difficulty (props s),
                                isNewHighScore = isNew\<rparr>
         in if onGameComplete (props s) then emit (GameComplete completionStats) s3 else s3))"

text \<open>The effect that checks for completion after a render.\<close>

definition completionEffect :: "env \<Rightarrow> session \<Rightarrow> session" where
  "completionEffect e s =
     (if isGameStarted s \<and> \<not> isGameComplete s \<and> \<not> gameCompleteTriggeredRef s \<and>
         length (cards s) > 0 \<and> isGameWon (cards s)
      then handleGameCompletion e s
      else s)"

text \<open>
  The effect that flips the last remaining pair. It sets \<^verbatim>\<open>isProcessing\<close> and schedules
  three timeouts that capture the two unmatched cards: at 500 ms and 800 ms a flip, at
  1500 ms the comparison. No ref holds these timeouts; the effect returns the captured
  cards, and each callback takes them as arguments.
\<close>

definition autoFlipEffect :: "session \<Rightarrow> session \<times> (Card \<times> Card) option" where
  "autoFlipEffect s =
     (if isGameStarted s \<and> \<not> isGamePaused s \<and> \<not> isProcessing s \<and> \<not> isGameComplete s \<and>
         totalPairs s > 0 \<and> totalPairs s - real_of_int (matchedPairs s) = 1
      then
        (let unmatchedCards = filter (\<lambda>card. \<not> isMatched card) (cards s)
         in if length unmatchedCards = 2
            then (s\<lparr>isProcessing := True\<rparr>, Some (unmatchedCards ! 0, unmatchedCards ! 1))
            else (s, None))
      else (s, None))"

definition autoFlipFirst :: "Card \<times> Card \<Rightarrow> session \<Rightarrow> session" where
  "autoFlipFirst unmatchedCards s =
     flipCard (card_id (fst unmatchedCards)) (if onFlip (props s) then emit Flip s else s)"

definition autoFlipSecond :: "Card \<times> Card \<Rightarrow> session \<Rightarrow> session" where
  "autoFlipSecond unmatchedCards s =
     flipCard (card_id (snd unmatchedCards)) (if onFlip (props s) then emit Flip s else s)"

definition autoFlipResolve :: "Card \<times> Card \<Rightarrow> session \<Rightarrow> session" where
  "autoFlipResolve unmatchedCards s =
     (let firstCard = fst unmatchedCards; secondCard = snd unmatchedCards
      in if checkCardsMatch firstCard secondCard
         then
           (let s1 = s\<lparr>cards :=
                         map (\<lambda>card. if card_id card = card_id firstCard \<or>
                                        card_id card = card_id secondCard
                                     then card\<lparr>isMatched := True, isFlipped := True\<rparr>
                                     else card) (cards s)\<rparr>;
                s2 = s1\<lparr>matchedPairs := matchedPairs s1 + 1,
                        flippedCards := [],
                        isProcessing := False\<rparr>
            in if onMatch (props s) then emit Match s2 else s2)
         else s)"

text \<open>The effect followed by its three timeouts, in the order of their delays.\<close>

definition autoResolve :: "session \<Rightarrow> session" where
  "autoResolve s =
     (case autoFlipEffect s of
        (s1, None) \<Rightarrow> s1
      | (s1, Some unmatchedCards) \<Rightarrow>
          autoFlipResolve unmatchedCards
            (autoFlipSecond unmatchedCards (autoFlipFirst unmatchedCards s1)))"

text \<open>
  What can happen to one session between two resets: calls of the hook's operations,
  timeouts firing, effects running, the timer ticking. The callbacks of the last-pair
  effect may arrive with any captured cards.
\<close>

datatype event =
  CardClick string
| StartGame
| PauseGame
| ResumeGame
| TimeoutFires
| TimerTick
| CompletionEffect
| AutoFlipEffect
| AutoFlipFirst Card Card
| AutoFlipSecond Card Card
| AutoFlipResolve Card Card

fun step :: "env \<Rightarrow> session \<Rightarrow> event \<Rightarrow> session" where
  "step e s (CardClick cardId) = handleCardClick s cardId"
| "step e s StartGame = startGame s"
| "step e s PauseGame = pauseGame s"
| "step e s ResumeGame = resumeGame s"
| "step e s TimeoutFires = processingTimeoutFires s"
| "step e s TimerTick = s\<lparr>theTimer := timer_tick (theTimer s)\<rparr>"
| "step e s CompletionEffect = completionEffect e s"
| "step e s AutoFlipEffect = fst (autoFlipEffect s)"
| "step e s (AutoFlipFirst a b) = autoFlipFirst (a, b) s"
| "step e s (AutoFlipSecond a b) = autoFlipSecond (a, b) s"
| "step e s (AutoFlipResolve a b) = autoFlipResolve (a, b) s"

definition run :: "env \<Rightarrow> session \<Rightarrow> event list \<Rightarrow> session" where
  "run e s evs = foldl (step e) s evs"

text \<open>How often the completion callback was called.\<close>

fun isCompletionNotice :: "notification \<Rightarrow> bool" where
  "isCompletionNotice (GameComplete stats) = True"
| "isCompletionNotice n = False"

definition completionCalls :: "session \<Rightarrow> nat" where
  "completionCalls s = length (filter isCompletionNotice (notifications s))"

text \<open>
  What the completion logic reads and writes: the completed flag, the one-shot flag, the
  number of completion callbacks, the props. The invariant ties the three together.
\<close>

definition completionObs :: "session \<Rightarrow> bool \<times> bool \<times> nat \<times> options" where
  "completionObs s = (isGameComplete s, gameCompleteTriggeredRef s, completionCalls s, props s)"

definition completionInv :: "session \<Rightarrow> bool" where
  "completionInv s \<longleftrightarrow>
     gameCompleteTriggeredRef s = isGameComplete s \<and>
     completionCalls s = (if isGameComplete s \<and> onGameComplete (props s) then 1 else 0)"

section \<open>Concrete environments and sessions\<close>

text \<open>
  Two environments. In \<open>env0\<close> the clock stands still and every draw is 0.5 (printed
  \<^verbatim>\<open>0.i\<close> in base 36); in \<open>env1\<close> the clock advances by one millisecond per reading.
\<close>

definition env0 :: env where
  "env0 = \<lparr>random = (\<lambda>_. 1 / 2), now = (\<lambda>_. 1700000000000), toString36 = (\<lambda>_. ''0.i''),
            toISOString = (\<lambda>_. ''2023-11-14T22:13:20.000Z'')\<rparr>"

definition env1 :: env where
  "env1 = \<lparr>random = (\<lambda>_. 1 / 2), now = (\<lambda>n. 1700000000000 + n),
            toString36 = (\<lambda>_. ''0.i''),
            toISOString = (\<lambda>_. ''2023-11-14T22:13:20.000Z'')\<rparr>"

definition w0 :: world where
  "w0 = \<lparr>randomCalls = 0, nowCalls = 0\<rparr>"

text \<open>
  A full leaderboard with the scores 1000, 900, ..., 100, the store that holds it, and an
  empty store.
\<close>

definition entry :: "string \<Rightarrow> int \<Rightarrow> int \<Rightarrow> HighScore" where
  "entry i sc t =
     \<lparr>hs_id = i, playerName = None, hs_moves = 12, hs_time = t, hs_difficulty = EASY,
      hs_date = ''2023-11-14T22:13:20.000Z'', hs_score = sc\<rparr>"

definition board10 :: "HighScore list" where
  "board10 =
     [entry ''h1'' 1000 60, entry ''h2'' 900 60, entry ''h3'' 800 60, entry ''h4'' 700 60,
      entry ''h5'' 600 60, entry ''h6'' 500 60, entry ''h7'' 400 60, entry ''h8'' 300 60,
      entry ''h9'' 200 60, entry ''h10'' 100 60]"

definition store10 :: storage where
  "store10 = \<lparr>highScoresItem = Stored board10, setItemThrows = False\<rparr>"

definition emptyStore :: storage where
  "emptyStore = \<lparr>highScoresItem = Missing, setItemThrows = False\<rparr>"

text \<open>
  An EASY deck of eight cards and sessions over it: one not started, one in which the
  first card was clicked, one with only the last pair unmatched, one with every card
  matched and the completion check still to run.
\<close>

definition exampleCard :: "string \<Rightarrow> string \<Rightarrow> Card" where
  "exampleCard i p =
     \<lparr>card_id = i, card_value = [0x1F436], imageUrl = Some [0x1F436],
      isFlipped = False, isMatched = False, pairId = p\<rparr>"

definition exampleDeck :: "Card list" where
  "exampleDeck =
     [exampleCard ''c1'' ''pair-0'', exampleCard ''c2'' ''pair-1'',
      exampleCard ''c3'' ''pair-0'', exampleCard ''c4'' ''pair-1'',
      exampleCard ''c5'' ''pair-2'', exampleCard ''c6'' ''pair-2'',
      exampleCard ''c7'' ''pair-3'', exampleCard ''c8'' ''pair-3'']"

definition exampleProps :: options where
  "exampleProps =
     \<lparr>difficulty = EASY, themeId = None, onGameComplete = True, onMatch = True,
      onNoMatch = True, onFlip = True\<rparr>"

definition newSession :: "Card list \<Rightarrow> session" where
  "newSession cs =
     \<lparr>cards = cs, flippedCards = [], matchedPairs = 0, moves = 0, score = 0,
      isGameStarted = False, isGameComplete = False, isGamePaused = False,
      isProcessing = False, theTimer = \<lparr>status = IDLE, time = 0\<rparr>,
      processingTimeoutRef = None, gameCompleteTriggeredRef = False,
      props = exampleProps, notifications = [], localStorage = emptyStore,
      theWorld = w0\<rparr>"

definition lastPairSession :: session where
  "lastPairSession =
     (markCardsAsMatched [''c1'', ''c2'', ''c3'', ''c4'', ''c5'', ''c6'']
        (startGame (newSession exampleDeck)))\<lparr>matchedPairs := 3, moves := 5\<rparr>"

definition wonSession :: session where
  "wonSession =
     (markCardsAsMatched [''c1'', ''c2'', ''c3'', ''c4'', ''c5'', ''c6'', ''c7'', ''c8'']
        (startGame (newSession exampleDeck)))\<lparr>matchedPairs := 4, moves := 5\<rparr>"

definition playingSession :: session where
  "playingSession = handleCardClick (startGame (newSession exampleDeck)) ''c1''"



section \<open>Properties of the score calculator\<close>

lemma totalCards_even: "2 * pairCount d = totalCards (GAME_CONFIGS d)"
  by (cases d) (simp_all add: pairCount_def)

lemma calculateScore_incomplete:
  "m \<noteq> pairCount d \<Longrightarrow> calculateScore mv t d m = max 0 (m * 100)"
  by (simp add: calculateScore_def pairCount_def MATCH_BONUS_def Let_def)

text \<open>
  C5. The score is never negative, whatever the arguments; and while the game is not
  complete (both pair counts strictly below the pair count of the difficulty), matching
  more pairs with the same moves and time never lowers the score.
\<close>

theorem calculateScore_nonneg_mono:
  "0 \<le> calculateScore mv t d m \<and>
   (m1 \<le> m2 \<longrightarrow> m1 < pairCount d \<longrightarrow> m2 < pairCount d \<longrightarrow>
      calculateScore mv t d m1 \<le> calculateScore mv t d m2)"
proof
  show "0 \<le> calculateScore mv t d m"
    by (simp add: calculateScore_def Let_def)
next
  show "m1 \<le> m2 \<longrightarrow> m1 < pairCount d \<longrightarrow> m2 < pairCount d \<longrightarrow>
      calculateScore mv t d m1 \<le> calculateScore mv t d m2"
  proof (intro impI)
    assume le: "m1 \<le> m2" and b1: "m1 < pairCount d" and b2: "m2 < pairCount d"
    have "calculateScore mv t d m1 = max 0 (m1 * 100)"
      using b1 by (simp add: calculateScore_incomplete)
    moreover have "calculateScore mv t d m2 = max 0 (m2 * 100)"
      using b2 by (simp add: calculateScore_incomplete)
    ultimately show "calculateScore mv t d m1 \<le> calculateScore mv t d m2"
      using le by simp
  qed
qed

theorem calculateScore_nonneg_mono_witness:
  "(1::int) \<le> 3 \<and> 1 < pairCount EASY \<and> 3 < pairCount EASY \<and>
   calculateScore 5 40 EASY 1 = 100 \<and> calculateScore 5 40 EASY 3 = 300 \<and>
   calculateScore 5 40 EASY 1 \<le> calculateScore 5 40 EASY 3 \<and>
   0 \<le> calculateScore 5 40 EASY 3"
  using calculateScore_nonneg_mono [of 5 40 EASY 3 1 3]
  by (simp add: calculateScore_def pairCount_def MATCH_BONUS_def Let_def)

text \<open>
  C6. On EASY (4 pairs, 8 perfect moves) with all four pairs matched, a game of 8 moves
  is credited the perfect-game bonus of 500 on top of the match points, the completion
  bonus and the time bonus; a game of 9 moves with the same time is not, and pays the
  penalty of 5 for its one extra move instead.
\<close>

theorem perfect_game_bonus_easy:
  "pairCount EASY = 4 \<and> PERFECT_MOVES EASY = 8 \<and> PERFECT_GAME_BONUS = 500 \<and>
   calculateScore 8 t EASY 4 =
     4 * MATCH_BONUS + 1000 + PERFECT_GAME_BONUS + (if t < 120 then (120 - t) * 10 else 0) \<and>
   calculateScore 9 t EASY 4 =
     4 * MATCH_BONUS + 1000 + (if t < 120 then (120 - t) * 10 else 0) - MOVE_PENALTY \<and>
   calculateScore 8 t EASY 4 - calculateScore 9 t EASY 4 = PERFECT_GAME_BONUS + MOVE_PENALTY"
  by (simp add: calculateScore_def pairCount_def MATCH_BONUS_def PERFECT_GAME_BONUS_def
      TIME_BONUS_MULTIPLIER_def MOVE_PENALTY_def Let_def)

section \<open>Properties of the deck generator\<close>

lemma digitChar_inj: "a < 10 \<Longrightarrow> b < 10 \<Longrightarrow> digitChar a = digitChar b \<Longrightarrow> a = b"
proof -
  assume a: "a < 10" and b: "b < 10" and eq: "digitChar a = digitChar b"
  have d: "distinct ''0123456789''" by simp
  have "length ''0123456789'' = 10" by simp
  with a b eq d show ?thesis
    unfolding digitChar_def by (metis nth_eq_iff_index_eq)
qed

lemma numberToString_nonempty: "numberToString n \<noteq> []"
  by (subst numberToString.simps) simp

lemma numberToString_inj: "numberToString m = numberToString n \<Longrightarrow> m = n"
proof (induction m arbitrary: n rule: numberToString.induct)
  case (1 m)
  show ?case
  proof (cases "m < 10")
    case True
    show ?thesis
    proof (cases "n < 10")
      case nlt: True
      from "1.prems" True nlt have "digitChar m = digitChar n"
        by (simp add: numberToString.simps)
      with True nlt show ?thesis by (rule digitChar_inj)
    next
      case False
      from "1.prems" True False
      have "[digitChar m] = numberToString (n div 10) @ [digitChar (n mod 10)]"
        by (simp add: numberToString.simps [of m] numberToString.simps [of n])
      then have "numberToString (n div 10) = []" by simp
      then show ?thesis by (simp add: numberToString_nonempty)
    qed
  next
    case mge: False
    show ?thesis
    proof (cases "n < 10")
      case True
      from "1.prems" True mge
      have "numberToString (m div 10) @ [digitChar (m mod 10)] = [digitChar n]"
        by (simp add: numberToString.simps [of m] numberToString.simps [of n])
      then have "numberToString (m div 10) = []" by simp
      then show ?thesis by (simp add: numberToString_nonempty)
    next
      case False
      from "1.prems" mge False
      have eq: "numberToString (m div 10) @ [digitChar (m mod 10)] =
                numberToString (n div 10) @ [digitChar (n mod 10)]"
        by (simp add: numberToString.simps [of m] numberToString.simps [of n])
      then have "numberToString (m div 10) = numberToString (n div 10)" by simp
      with "1.IH" mge have q: "m div 10 = n div 10" by blast
      from eq have "digitChar (m mod 10) = digitChar (n mod 10)" by simp
      then have r: "m mod 10 = n mod 10" by (intro digitChar_inj) simp_all
      from q r show ?thesis by (metis div_mult_mod_eq)
    qed
  qed
qed

lemma shuffleLoop_mset:
  assumes draws: "\<forall>n. 0 \<le> random e n \<and> random e n < 1"
  shows "k < length xs \<Longrightarrow> mset (fst (shuffleLoop e k xs w)) = mset xs"
proof (induction k arbitrary: xs w)
  case 0
  then show ?case by simp
next
  case (Suc k)
  define r where "r = random e (randomCalls w)"
  define j where "j = nat \<lfloor>r * real (Suc k + 1)\<rfloor>"
  have r0: "0 \<le> r" and r1: "r < 1" using draws by (simp_all add: r_def)
  have "r * real (Suc k + 1) < real (Suc k + 1)" using r1 by simp
  then have "\<lfloor>r * real (Suc k + 1)\<rfloor> < int (Suc k + 1)" by (simp add: floor_less_iff)
  then have jle: "j \<le> Suc k" unfolding j_def by linarith
  with Suc.prems have jlt: "j < length xs" by simp
  let ?ys = "xs[Suc k := xs ! j, j := xs ! Suc k]"
  have m: "mset ?ys = mset xs" using Suc.prems jlt by (simp add: mset_swap)
  have "k < length ?ys" using Suc.prems by simp
  then have "mset (fst (shuffleLoop e k ?ys (w\<lparr>randomCalls := Suc (randomCalls w)\<rparr>))) = mset ?ys"
    by (rule Suc.IH)
  with m show ?case
    by (simp add: mathRandom_def Let_def r_def j_def)
qed

lemma shuffleArray_mset:
  assumes "\<forall>n. 0 \<le> random e n \<and> random e n < 1"
  shows "mset (fst (shuffleArray e xs w)) = mset xs"
proof (cases xs)
  case Nil
  then show ?thesis by (simp add: shuffleArray_def)
next
  case (Cons a list)
  then have "length xs - 1 < length xs" by simp
  then show ?thesis unfolding shuffleArray_def by (rule shuffleLoop_mset [OF assms])
qed

lemma shuffleLoop_world:
  "snd (shuffleLoop e k xs w) = w\<lparr>randomCalls := randomCalls w + k\<rparr>"
  by (induction k arbitrary: xs w) (simp_all add: mathRandom_def Let_def)

lemma shuffleArray_world:
  "snd (shuffleArray e xs w) = w\<lparr>randomCalls := randomCalls w + (length xs - 1)\<rparr>"
  by (simp add: shuffleArray_def shuffleLoop_world)

lemma getCardTheme_cards: "length (theme_cards (getCardTheme t)) = 10"
  by (simp add: getCardTheme_def CARD_THEMES_def DEFAULT_THEME_ID_def theme_animals_def
      theme_fruits_def theme_sports_def theme_vehicles_def theme_nature_def theme_food_def
      theme_space_def theme_weather_def)

lemma pairIdOf_inj: "pairIdOf i = pairIdOf j \<Longrightarrow> i = j"
  by (simp add: pairIdOf_def numberToString_inj)

lemma createPairs_length: "length (fst (createPairs e vs idx w)) = 2 * length vs"
  by (induction vs arbitrary: idx w) (simp_all add: Let_def split_beta)

lemma createPairs_flags:
  "c \<in> set (fst (createPairs e vs idx w)) \<Longrightarrow> \<not> isFlipped c \<and> \<not> isMatched c"
  by (induction vs arbitrary: idx w) (auto simp: Let_def split_beta)

lemma createPairs_ids: "map card_id (fst (createPairs e vs idx w)) = idsFrom e w (2 * length vs)"
  by (induction vs arbitrary: idx w) (simp_all add: Let_def split_beta)

lemma createPairs_pairIds:
  "count (mset (map pairId (fst (createPairs e vs idx w)))) p =
     (if \<exists>i. idx \<le> i \<and> i < idx + length vs \<and> p = pairIdOf i then 2 else 0)"
proof (induction vs arbitrary: idx w)
  case Nil
  then show ?case by simp
next
  case (Cons v vs)
  obtain id1 w1 where g1: "generateId e w = (id1, w1)" by (cases "generateId e w")
  obtain id2 w2 where g2: "generateId e w1 = (id2, w2)" by (cases "generateId e w1")
  obtain cs w3 where r: "createPairs e vs (Suc idx) w2 = (cs, w3)"
    by (cases "createPairs e vs (Suc idx) w2")
  have ih: "count (mset (map pairId cs)) p =
     (if \<exists>i. Suc idx \<le> i \<and> i < Suc idx + length vs \<and> p = pairIdOf i then 2 else 0)"
    using Cons.IH [of "Suc idx" w2] r by simp
  show ?case
  proof (cases "p = pairIdOf idx")
    case True
    have "\<not> (\<exists>i. Suc idx \<le> i \<and> i < Suc idx + length vs \<and> p = pairIdOf i)"
      using True pairIdOf_inj by fastforce
    with ih have "count (mset (map pairId cs)) p = 0" by simp
    moreover have "\<exists>i. idx \<le> i \<and> i < idx + length (v # vs) \<and> p = pairIdOf i"
      using True by (intro exI [of _ idx]) simp
    ultimately show ?thesis using True g1 g2 r
      by (simp add: Let_def pairIdOf_def)
  next
    case False
    have "(\<exists>i. idx \<le> i \<and> i < idx + length (v # vs) \<and> p = pairIdOf i) =
          (\<exists>i. Suc idx \<le> i \<and> i < Suc idx + length vs \<and> p = pairIdOf i)"
      using False by (metis Suc_leD Suc_le_eq add_Suc add_Suc_right le_neq_implies_less length_Cons)
    with ih False show ?thesis using g1 g2 r
      by (simp add: Let_def pairIdOf_def)
  qed
qed

lemma idsFrom_eq:
  "idsFrom e w n =
     map (\<lambda>k. numberToString (now e (nowCalls w + k)) @ ''-'' @
               take 9 (drop 2 (toString36 e (random e (randomCalls w + k))))) [0..<n]"
proof (induction n arbitrary: w)
  case 0
  then show ?case by simp
next
  case (Suc n)
  have "[0..<Suc n] = 0 # map Suc [0..<n]"
    by (simp add: upt_conv_Cons map_Suc_upt del: upt_Suc)
  then show ?case
    by (simp add: Suc.IH generateId_def dateNow_def mathRandom_def Let_def comp_def
        del: upt_Suc)
qed

lemma generateCards_unfold:
  "generateCards e d t w =
     shuffleArray e
       (fst (createPairs e (take (nat (pairCount d))
          (fst (shuffleArray e (theme_cards (getCardTheme
              (case t of None \<Rightarrow> DEFAULT_THEME_ID | Some t \<Rightarrow> t))) w))) 0
          (snd (shuffleArray e (theme_cards (getCardTheme
              (case t of None \<Rightarrow> DEFAULT_THEME_ID | Some t \<Rightarrow> t))) w))))
       (snd (createPairs e (take (nat (pairCount d))
          (fst (shuffleArray e (theme_cards (getCardTheme
              (case t of None \<Rightarrow> DEFAULT_THEME_ID | Some t \<Rightarrow> t))) w))) 0
          (snd (shuffleArray e (theme_cards (getCardTheme
              (case t of None \<Rightarrow> DEFAULT_THEME_ID | Some t \<Rightarrow> t))) w))))"
  by (simp add: generateCards_def pairCount_def Let_def split_beta)

lemma pairCount_le: "nat (pairCount d) \<le> 10"
  by (cases d) (simp_all add: pairCount_def)

lemma pairCount_nonneg: "0 \<le> pairCount d"
  by (cases d) (simp_all add: pairCount_def)

lemma generateCards_mset:
  assumes draws: "\<forall>n. 0 \<le> random e n \<and> random e n < 1"
  shows "\<exists>faces w1. length faces = nat (pairCount d) \<and>
           mset (fst (generateCards e d t w)) = mset (fst (createPairs e faces 0 w1)) \<and>
           map card_id (fst (createPairs e faces 0 w1)) = generatedIds e d t w"
proof -
  define theme where
    "theme = getCardTheme (case t of None \<Rightarrow> DEFAULT_THEME_ID | Some t \<Rightarrow> t)"
  define shuffled where "shuffled = fst (shuffleArray e (theme_cards theme) w)"
  define w1 where "w1 = snd (shuffleArray e (theme_cards theme) w)"
  define faces where "faces = take (nat (pairCount d)) shuffled"
  have "mset shuffled = mset (theme_cards theme)"
    unfolding shuffled_def by (rule shuffleArray_mset [OF draws])
  then have "size (mset shuffled) = size (mset (theme_cards theme))" by simp
  then have "length shuffled = 10" by (simp add: theme_def getCardTheme_cards)
  then have len: "length faces = nat (pairCount d)"
    using pairCount_le [of d] by (simp add: faces_def)
  have "generateCards e d t w =
          shuffleArray e (fst (createPairs e faces 0 w1)) (snd (createPairs e faces 0 w1))"
    by (simp add: generateCards_unfold faces_def shuffled_def w1_def theme_def)
  then have m: "mset (fst (generateCards e d t w)) = mset (fst (createPairs e faces 0 w1))"
    by (simp add: shuffleArray_mset [OF draws])
  have "map card_id (fst (createPairs e faces 0 w1)) = generatedIds e d t w"
    by (simp add: createPairs_ids len generatedIds_def Let_def w1_def theme_def pairCount_def)
  with len m show ?thesis by blast
qed

lemma count_pairId:
  "length (filter (\<lambda>c'. pairId c' = p) cs) = count (mset (map pairId cs)) p"
  by (induction cs) auto

text \<open>
  What holds of every deck, for every difficulty and every theme id, known or not, and
  every random source whose draws lie in [0, 1): the deck has 2 \<times> pairCount cards, the
  pairId of every card is carried by exactly two cards, every card is face down and
  unmatched, and the ids of the cards are, up to order, the identifiers that
  \<^verbatim>\<open>generateId\<close> returned while the deck was built.
\<close>

lemma generateCards_deck:
  assumes draws: "\<forall>n. 0 \<le> random e n \<and> random e n < 1"
  shows "int (length (fst (generateCards e d t w))) = 2 * pairCount d \<and>
     (\<forall>c \<in> set (fst (generateCards e d t w)).
         length (filter (\<lambda>c'. pairId c' = pairId c) (fst (generateCards e d t w))) = 2 \<and>
         \<not> isFlipped c \<and> \<not> isMatched c) \<and>
     mset (map card_id (fst (generateCards e d t w))) = mset (generatedIds e d t w) \<and>
     (distinct (map card_id (fst (generateCards e d t w))) \<longleftrightarrow>
        distinct (generatedIds e d t w))"
proof -
  let ?deck = "fst (generateCards e d t w)"
  from generateCards_mset [OF draws, of d t w]
  obtain faces w1 where len: "length faces = nat (pairCount d)"
    and m: "mset ?deck = mset (fst (createPairs e faces 0 w1))"
    and ids: "map card_id (fst (createPairs e faces 0 w1)) = generatedIds e d t w"
    by blast
  let ?pairs = "fst (createPairs e faces 0 w1)"
  have "size (mset ?deck) = size (mset ?pairs)" using m by simp
  then have "length ?deck = 2 * nat (pairCount d)"
    by (simp add: createPairs_length len)
  then have a: "int (length ?deck) = 2 * pairCount d"
    using pairCount_nonneg [of d] by simp
  have b: "length (filter (\<lambda>c'. pairId c' = pairId c) ?deck) = 2 \<and>
           \<not> isFlipped c \<and> \<not> isMatched c" if c: "c \<in> set ?deck" for c
  proof -
    have cp: "c \<in> set ?pairs" using c m by (metis set_mset_mset)
    have mm: "mset (map pairId ?deck) = mset (map pairId ?pairs)" using m by simp
    have "pairId c \<in> set (map pairId ?pairs)" using cp by simp
    then have nz: "count (mset (map pairId ?pairs)) (pairId c) \<noteq> 0"
      by (metis count_eq_zero_iff set_mset_mset)
    have "count (mset (map pairId ?pairs)) (pairId c) = 2 \<or>
          count (mset (map pairId ?pairs)) (pairId c) = 0"
      unfolding createPairs_pairIds by presburger
    with nz have "count (mset (map pairId ?pairs)) (pairId c) = 2" by presburger
    then have "length (filter (\<lambda>c'. pairId c' = pairId c) ?deck) = 2"
      unfolding count_pairId mm .
    with createPairs_flags [OF cp] show ?thesis by simp
  qed
  have c0: "mset (map card_id ?deck) = mset (generatedIds e d t w)"
    using m ids by (metis mset_map)
  then have c: "distinct (map card_id ?deck) \<longleftrightarrow> distinct (generatedIds e d t w)"
    by (rule mset_eq_imp_distinct_iff)
  from a b c0 c show ?thesis by blast
qed

lemma generatedIds_env1:
  "generatedIds env1 EASY None w0 =
    [''1700000000000-i'', ''1700000000001-i'', ''1700000000002-i'', ''1700000000003-i'',
     ''1700000000004-i'', ''1700000000005-i'', ''1700000000006-i'', ''1700000000007-i'']"
  by (simp add: generatedIds_def idsFrom_eq env1_def w0_def shuffleArray_world Let_def
      upt_conv_Cons numberToString.simps digitChar_def del: upt_Suc)

text \<open>In \<open>env1\<close> the eight identifiers differ, and so do the ids of the deck.\<close>

lemma generateCards_deck_distinct_example:
  "(\<forall>n. 0 \<le> random env1 n \<and> random env1 n < 1) \<and>
   length (fst (generateCards env1 EASY None w0)) = 8 \<and>
   distinct (generatedIds env1 EASY None w0) \<and>
   distinct (map card_id (fst (generateCards env1 EASY None w0)))"
proof -
  have draws: "\<forall>n. 0 \<le> random env1 n \<and> random env1 n < 1" by (simp add: env1_def)
  have d: "distinct (generatedIds env1 EASY None w0)" by (simp add: generatedIds_env1)
  from generateCards_deck [OF draws, of EASY None w0] d draws show ?thesis
    by (simp add: pairCount_def)
qed

lemma replicate_8: "replicate 8 x = [x, x, x, x, x, x, x, x]"
  by (simp add: numeral_eq_Suc)

lemma generatedIds_env0:
  "generatedIds env0 EASY None w0 = replicate 8 ''1700000000000-i''"
  unfolding replicate_8
  by (simp add: generatedIds_def idsFrom_eq env0_def w0_def shuffleArray_world Let_def
      upt_conv_Cons numberToString.simps digitChar_def del: upt_Suc)

text \<open>
  C2 (the code departs from the claim). \<^verbatim>\<open>generateId\<close>, documented as generating a unique
  ID, builds its result from the clock reading and a random draw and nothing else. Where
  the clock stands still during the call and the draws repeat, as in \<open>env0\<close>, it returns
  the same identifier every time: the EASY deck has its eight cards, and all eight
  share one id.
\<close>

theorem generateCards_shared_id:
  "length (fst (generateCards env0 EASY None w0)) = 8 \<and>
   set (map card_id (fst (generateCards env0 EASY None w0))) = {''1700000000000-i''} \<and>
   \<not> distinct (map card_id (fst (generateCards env0 EASY None w0)))"
proof -
  have draws: "\<forall>n. 0 \<le> random env0 n \<and> random env0 n < 1" by (simp add: env0_def)
  from generateCards_mset [OF draws, of EASY None w0]
  obtain faces w1 where len: "length faces = nat (pairCount EASY)"
    and m: "mset (fst (generateCards env0 EASY None w0)) =
            mset (fst (createPairs env0 faces 0 w1))"
    and ids: "map card_id (fst (createPairs env0 faces 0 w1)) = generatedIds env0 EASY None w0"
    by blast
  have mm: "mset (map card_id (fst (generateCards env0 EASY None w0))) =
        mset (replicate 8 ''1700000000000-i'')"
    using m ids generatedIds_env0 by (metis mset_map)
  have l: "length (map card_id (fst (generateCards env0 EASY None w0))) = 8"
    using mm by (metis length_replicate size_mset)
  have s: "set (map card_id (fst (generateCards env0 EASY None w0))) = {''1700000000000-i''}"
    using mm by (metis set_mset_mset set_replicate zero_neq_numeral)
  have "\<not> distinct (replicate 8 ''1700000000000-i'')"
    by (simp add: replicate_8)
  then have "\<not> distinct (map card_id (fst (generateCards env0 EASY None w0)))"
    using mm by (metis mset_eq_imp_distinct_iff)
  with l s show ?thesis by simp
qed

section \<open>Properties of the leaderboard\<close>

lemma compare_le_iff: "compareHighScores a b \<le> 0 \<longleftrightarrow> hsBefore a b"
  by (auto simp: compareHighScores_def hsBefore_def)

lemma hsBefore_total: "\<not> hsBefore a b \<Longrightarrow> hsBefore b a"
  by (auto simp: hsBefore_def)

lemma hsBefore_trans: "hsBefore a b \<Longrightarrow> hsBefore b c \<Longrightarrow> hsBefore a c"
  by (auto simp: hsBefore_def)

lemma hsBefore_score: "hsBefore a b \<Longrightarrow> hs_score b \<le> hs_score a"
  by (auto simp: hsBefore_def)

lemma leaderboardOrdered_iff: "leaderboardOrdered hs = sorted_wrt hsBefore hs"
  unfolding leaderboardOrdered_def hsBefore_def ..

lemma mset_insertSorted: "mset (insertSorted cmp x ys) = add_mset x (mset ys)"
  by (induction ys) simp_all

lemma set_insertSorted: "set (insertSorted cmp x ys) = insert x (set ys)"
  by (induction ys) auto

lemma mset_sortWith: "mset (sortWith cmp xs) = mset xs"
  by (induction xs) (simp_all add: sortWith_def mset_insertSorted)

lemma sorted_insertSorted:
  "sorted_wrt hsBefore ys \<Longrightarrow> sorted_wrt hsBefore (insertSorted compareHighScores x ys)"
proof (induction ys)
  case Nil
  then show ?case by simp
next
  case (Cons y ys)
  show ?case
  proof (cases "compareHighScores x y \<le> 0")
    case True
    then have xy: "hsBefore x y" by (simp add: compare_le_iff)
    have "\<forall>z\<in>set ys. hsBefore x z"
      using Cons.prems xy hsBefore_trans by auto
    with True xy Cons.prems show ?thesis by simp
  next
    case False
    then have yx: "hsBefore y x" by (simp add: compare_le_iff hsBefore_total)
    have "sorted_wrt hsBefore (insertSorted compareHighScores x ys)"
      using Cons by simp
    with False yx Cons.prems show ?thesis
      by (simp add: set_insertSorted)
  qed
qed

lemma sorted_sortWith: "sorted_wrt hsBefore (sortWith compareHighScores xs)"
  by (induction xs) (simp_all add: sortWith_def sorted_insertSorted)

lemma insertSorted_first:
  "\<forall>z\<in>set ys. hsBefore x z \<Longrightarrow> insertSorted compareHighScores x ys = x # ys"
  by (cases ys) (simp_all add: compare_le_iff)

lemma sortWith_sorted_id:
  "sorted_wrt hsBefore xs \<Longrightarrow> sortWith compareHighScores xs = xs"
proof (induction xs)
  case Nil
  then show ?case by (simp add: sortWith_def)
next
  case (Cons x xs)
  then have "sortWith compareHighScores xs = xs" by simp
  then have "sortWith compareHighScores (x # xs) = insertSorted compareHighScores x xs"
    by (simp add: sortWith_def)
  with Cons.prems show ?case by (simp add: insertSorted_first)
qed

lemma sorted_last_min:
  "sorted_wrt hsBefore ys \<Longrightarrow> x \<in> set ys \<Longrightarrow> hs_score (last ys) \<le> hs_score x"
proof (induction ys)
  case Nil
  then show ?case by simp
next
  case (Cons y ys)
  show ?case
  proof (cases "ys = []")
    case True
    with Cons.prems show ?thesis by simp
  next
    case False
    then have l: "last (y # ys) = last ys" by simp
    have lin: "last ys \<in> set ys" using False by simp
    show ?thesis
    proof (cases "x = y")
      case True
      with Cons.prems lin have "hsBefore x (last ys)" by simp
      then show ?thesis using l by (simp add: hsBefore_score)
    next
      case False
      with Cons show ?thesis using l by simp
    qed
  qed
qed

lemma addHighScore_stored:
  "\<not> setItemThrows st \<Longrightarrow>
   addHighScore st new =
     (True, st\<lparr>highScoresItem :=
        Stored (take MAX_HIGH_SCORES (sortWith compareHighScores (loadHighScores st @ [new])))\<rparr>)"
  by (simp add: addHighScore_def saveHighScores_def saveToStorage_def Let_def)

lemma loadHighScores_Stored [simp]:
  "loadHighScores (st\<lparr>highScoresItem := Stored xs\<rparr>) = xs"
  by (simp add: loadHighScores_def loadFromStorage_def)

lemma addHighScore_failed:
  "setItemThrows st \<Longrightarrow> addHighScore st new = (False, st)"
  by (simp add: addHighScore_def saveHighScores_def saveToStorage_def Let_def)

lemma insertSorted_keeps_last:
  "hsBefore x l \<Longrightarrow>
   insertSorted compareHighScores x (zs @ [l]) = insertSorted compareHighScores x zs @ [l]"
  by (induction zs) (simp_all add: compare_le_iff)

lemma foldr_insertSorted_keeps_last:
  "\<forall>x\<in>set xs. hsBefore x l \<Longrightarrow>
   foldr (insertSorted compareHighScores) xs (zs @ [l]) =
   foldr (insertSorted compareHighScores) xs zs @ [l]"
  by (induction xs) (simp_all add: insertSorted_keeps_last)

lemma sortWith_snoc:
  "sortWith cmp (xs @ [x]) = foldr (insertSorted cmp) xs [x]"
  by (simp add: sortWith_def)

lemma sorted_butlast_before_last:
  "sorted_wrt hsBefore xs \<Longrightarrow> x \<in> set (butlast xs) \<Longrightarrow> hsBefore x (last xs)"
proof -
  assume s: "sorted_wrt hsBefore xs" and x: "x \<in> set (butlast xs)"
  then have ne: "xs \<noteq> []" by auto
  then have "xs = butlast xs @ [last xs]" by simp
  then have "sorted_wrt hsBefore (butlast xs @ [last xs])" using s by simp
  then show ?thesis using x by (simp add: sorted_wrt_append)
qed

text \<open>A full ordered board and a newcomer that beats its last entry: the last entry goes.\<close>

lemma sortWith_evicts_last:
  assumes s: "sorted_wrt hsBefore old" and ne: "old \<noteq> []"
    and hi: "hs_score (last old) < hs_score new"
  shows "sortWith compareHighScores (old @ [new]) =
         sortWith compareHighScores (butlast old @ [new]) @ [last old]"
proof -
  have old: "old = butlast old @ [last old]" using ne by simp
  have c: "\<not> compareHighScores (last old) new \<le> 0"
    using hi by (simp add: compareHighScores_def)
  have "sortWith compareHighScores (old @ [new]) =
        foldr (insertSorted compareHighScores) (butlast old @ [last old]) [new]"
    using old by (simp add: sortWith_snoc)
  also have "\<dots> = foldr (insertSorted compareHighScores) (butlast old) ([new] @ [last old])"
    using c by simp
  also have "\<dots> = foldr (insertSorted compareHighScores) (butlast old) [new] @ [last old]"
    using sorted_butlast_before_last [OF s]
    by (intro foldr_insertSorted_keeps_last) blast
  finally show ?thesis by (simp add: sortWith_snoc)
qed

lemma length_sortWith: "length (sortWith cmp xs) = length xs"
  by (metis mset_sortWith size_mset)

lemma full_lower_rejected:
  assumes len: "length old = MAX_HIGH_SCORES"
    and low: "\<forall>e\<in>set old. hs_score new < hs_score e"
  shows "mset (take MAX_HIGH_SCORES (sortWith compareHighScores (old @ [new]))) = mset old"
proof -
  let ?ys = "sortWith compareHighScores (old @ [new])"
  have s: "sorted_wrt hsBefore ?ys" by (rule sorted_sortWith)
  have m: "mset ?ys = add_mset new (mset old)" by (simp add: mset_sortWith)
  have l: "length ?ys = Suc MAX_HIGH_SCORES" by (simp add: length_sortWith len)
  then have ne: "?ys \<noteq> []" by auto
  have tk: "take MAX_HIGH_SCORES ?ys = butlast ?ys" using l by (simp add: butlast_conv_take)
  have split: "?ys = butlast ?ys @ [last ?ys]" using ne by simp
  have lastnew: "last ?ys = new"
  proof (rule ccontr)
    assume neq: "last ?ys \<noteq> new"
    have "last ?ys \<in># mset ?ys" using ne by simp
    with m neq have "last ?ys \<in> set old" by simp
    with low have lt: "hs_score new < hs_score (last ?ys)" by blast
    have "new \<in> set ?ys" using m by (metis set_mset_mset union_single_eq_member)
    from sorted_last_min [OF s this] lt show False by simp
  qed
  have "mset ?ys = add_mset (last ?ys) (mset (butlast ?ys))"
    using split by (metis mset.simps(2) mset_append add_mset_add_single union_mset_add_mset_right add.right_neutral mset.simps(1))
  with m lastnew have "mset (butlast ?ys) = mset old" by simp
  with tk show ?thesis by simp
qed

lemma full_higher_evicts:
  assumes len: "length old = MAX_HIGH_SCORES"
    and hi: "\<exists>e\<in>set old. hs_score e < hs_score new"
  shows "new \<in> set (take MAX_HIGH_SCORES (sortWith compareHighScores (old @ [new]))) \<and>
     (\<exists>e\<in>set old. (\<forall>x\<in>set old. hs_score e \<le> hs_score x) \<and>
        add_mset e (mset (take MAX_HIGH_SCORES (sortWith compareHighScores (old @ [new])))) =
        add_mset new (mset old))"
proof -
  let ?ys = "sortWith compareHighScores (old @ [new])"
  have s: "sorted_wrt hsBefore ?ys" by (rule sorted_sortWith)
  have m: "mset ?ys = add_mset new (mset old)" by (simp add: mset_sortWith)
  have l: "length ?ys = Suc MAX_HIGH_SCORES" by (simp add: length_sortWith len)
  then have ne: "?ys \<noteq> []" by auto
  have tk: "take MAX_HIGH_SCORES ?ys = butlast ?ys" using l by (simp add: butlast_conv_take)
  have split: "?ys = butlast ?ys @ [last ?ys]" using ne by simp
  have mm: "mset ?ys = add_mset (last ?ys) (mset (butlast ?ys))"
    using split by (metis mset.simps(2) mset_append add_mset_add_single union_mset_add_mset_right add.right_neutral mset.simps(1))
  have sets: "set ?ys = insert new (set old)" using m by (metis set_mset_add_mset_insert set_mset_mset)
  from hi obtain e where e: "e \<in> set old" "hs_score e < hs_score new" by blast
  have "e \<in> set ?ys" using e sets by simp
  from sorted_last_min [OF s this] e have lt: "hs_score (last ?ys) < hs_score new" by simp
  then have neq: "last ?ys \<noteq> new" by auto
  have "last ?ys \<in> set ?ys" using ne by simp
  with sets neq have lo: "last ?ys \<in> set old" by simp
  have minimal: "\<forall>x\<in>set old. hs_score (last ?ys) \<le> hs_score x"
    using sorted_last_min [OF s] sets by simp
  have "new \<in># add_mset (last ?ys) (mset (butlast ?ys))" using m mm by (metis union_single_eq_member)
  with neq have newin: "new \<in> set (butlast ?ys)" by simp
  have "add_mset (last ?ys) (mset (butlast ?ys)) = add_mset new (mset old)" using m mm by simp
  with lo minimal newin tk show ?thesis by auto
qed

lemma full_sorted_lower_unchanged:
  assumes len: "length old = MAX_HIGH_SCORES" and s: "sorted_wrt hsBefore old"
    and low: "\<forall>e\<in>set old. hs_score new < hs_score e"
  shows "take MAX_HIGH_SCORES (sortWith compareHighScores (old @ [new])) = old"
proof -
  have "\<forall>e\<in>set old. hsBefore e new" using low by (auto simp: hsBefore_def)
  then have "sorted_wrt hsBefore (old @ [new])" using s by (simp add: sorted_wrt_append)
  then have "sortWith compareHighScores (old @ [new]) = old @ [new]"
    by (rule sortWith_sorted_id)
  with len show ?thesis by simp
qed

lemma full_sorted_higher_evicts_last:
  assumes len: "length old = MAX_HIGH_SCORES" and s: "sorted_wrt hsBefore old"
    and hi: "hs_score (last old) < hs_score new"
  shows "take MAX_HIGH_SCORES (sortWith compareHighScores (old @ [new])) =
         sortWith compareHighScores (butlast old @ [new])"
proof -
  have ne: "old \<noteq> []" using len by (auto simp: MAX_HIGH_SCORES_def)
  have "length (butlast old @ [new]) = length old" using ne by simp
  then have "length (sortWith compareHighScores (butlast old @ [new])) = MAX_HIGH_SCORES"
    using len by (simp only: length_sortWith)
  then show ?thesis by (simp add: sortWith_evicts_last [OF s ne hi])
qed

text \<open>
  C4. When the write succeeds, the list stored after \<^verbatim>\<open>addHighScore\<close> is ordered by score
  descending, ties by time ascending, and has at most 10 entries. With 10 entries stored
  before: a new entry whose score is below every stored score leaves the stored entries
  as they were (the same entries; the same list when it was ordered); a new entry whose
  score is above some stored score is stored, and one stored entry of lowest score is
  evicted for it (the last entry, when the list was ordered).
\<close>

theorem addHighScore_leaderboard:
  assumes ok: "\<not> setItemThrows st"
  shows "fst (addHighScore st new) \<and>
     leaderboardOrdered (loadHighScores (snd (addHighScore st new))) \<and>
     length (loadHighScores (snd (addHighScore st new))) \<le> MAX_HIGH_SCORES \<and>
     (length (loadHighScores st) = MAX_HIGH_SCORES \<longrightarrow>
        ((\<forall>e\<in>set (loadHighScores st). hs_score new < hs_score e) \<longrightarrow>
           mset (loadHighScores (snd (addHighScore st new))) = mset (loadHighScores st) \<and>
           (leaderboardOrdered (loadHighScores st) \<longrightarrow>
              loadHighScores (snd (addHighScore st new)) = loadHighScores st)) \<and>
        ((\<exists>e\<in>set (loadHighScores st). hs_score e < hs_score new) \<longrightarrow>
           new \<in> set (loadHighScores (snd (addHighScore st new))) \<and>
           (\<exists>e\<in>set (loadHighScores st).
              (\<forall>x\<in>set (loadHighScores st). hs_score e \<le> hs_score x) \<and>
              add_mset e (mset (loadHighScores (snd (addHighScore st new)))) =
              add_mset new (mset (loadHighScores st))) \<and>
           (leaderboardOrdered (loadHighScores st) \<longrightarrow>
              loadHighScores (snd (addHighScore st new)) =
              sortWith compareHighScores (butlast (loadHighScores st) @ [new]))))"
proof -
  let ?old = "loadHighScores st"
  let ?new = "take MAX_HIGH_SCORES (sortWith compareHighScores (?old @ [new]))"
  have st: "loadHighScores (snd (addHighScore st new)) = ?new"
    by (simp add: addHighScore_stored [OF ok])
  have a: "fst (addHighScore st new)" by (simp add: addHighScore_stored [OF ok])
  have b: "leaderboardOrdered ?new"
    unfolding leaderboardOrdered_iff by (intro sorted_wrt_take sorted_sortWith)
  have c: "length ?new \<le> MAX_HIGH_SCORES" by simp
  have d: "mset ?new = mset ?old \<and> (leaderboardOrdered ?old \<longrightarrow> ?new = ?old)"
    if "length ?old = MAX_HIGH_SCORES" "\<forall>e\<in>set ?old. hs_score new < hs_score e"
    using that full_lower_rejected full_sorted_lower_unchanged
    by (simp add: leaderboardOrdered_iff)
  have e: "new \<in> set ?new \<and>
           (\<exists>e\<in>set ?old. (\<forall>x\<in>set ?old. hs_score e \<le> hs_score x) \<and>
              add_mset e (mset ?new) = add_mset new (mset ?old)) \<and>
           (leaderboardOrdered ?old \<longrightarrow>
              ?new = sortWith compareHighScores (butlast ?old @ [new]))"
    if len: "length ?old = MAX_HIGH_SCORES" and hi: "\<exists>e\<in>set ?old. hs_score e < hs_score new"
  proof -
    have "?new = sortWith compareHighScores (butlast ?old @ [new])"
      if s: "sorted_wrt hsBefore ?old"
    proof -
      from hi obtain x where x: "x \<in> set ?old" "hs_score x < hs_score new" by blast
      from sorted_last_min [OF s x(1)] x(2) have "hs_score (last ?old) < hs_score new" by simp
      from full_sorted_higher_evicts_last [OF len s this] show ?thesis .
    qed
    with full_higher_evicts [OF len hi] show ?thesis
      by (simp add: leaderboardOrdered_iff)
  qed
  from a b c d e show ?thesis unfolding st by blast
qed

lemma board10_sorted: "leaderboardOrdered board10"
  by (simp add: leaderboardOrdered_def board10_def entry_def)

text \<open>
  On the full board: an entry of score 50 is not admitted, an entry of score 550 takes the
  sixth place and the entry of score 100 goes.
\<close>

theorem addHighScore_leaderboard_witness:
  "\<not> setItemThrows store10 \<and> length (loadHighScores store10) = MAX_HIGH_SCORES \<and>
   leaderboardOrdered (loadHighScores store10) \<and>
   list_all (\<lambda>e. hs_score (entry ''low'' 50 30) < hs_score e) (loadHighScores store10) \<and>
   loadHighScores (snd (addHighScore store10 (entry ''low'' 50 30))) = board10 \<and>
   (\<exists>e\<in>set (loadHighScores store10). hs_score e < hs_score (entry ''high'' 550 45)) \<and>
   loadHighScores (snd (addHighScore store10 (entry ''high'' 550 45))) =
     [entry ''h1'' 1000 60, entry ''h2'' 900 60, entry ''h3'' 800 60, entry ''h4'' 700 60,
      entry ''h5'' 600 60, entry ''high'' 550 45, entry ''h6'' 500 60, entry ''h7'' 400 60,
      entry ''h8'' 300 60, entry ''h9'' 200 60]"
proof -
  have ok: "\<not> setItemThrows store10" by (simp add: store10_def)
  have ld: "loadHighScores store10 = board10"
    by (simp add: store10_def loadHighScores_def loadFromStorage_def)
  have len: "length board10 = MAX_HIGH_SCORES" by (simp add: board10_def MAX_HIGH_SCORES_def)
  have low: "\<forall>e\<in>set board10. hs_score (entry ''low'' 50 30) < hs_score e"
    by (simp add: board10_def entry_def)
  have hi: "\<exists>e\<in>set board10. hs_score e < hs_score (entry ''high'' 550 45)"
    by (simp add: board10_def entry_def)
  have bl: "butlast board10 =
     [entry ''h1'' 1000 60, entry ''h2'' 900 60, entry ''h3'' 800 60, entry ''h4'' 700 60,
      entry ''h5'' 600 60, entry ''h6'' 500 60, entry ''h7'' 400 60, entry ''h8'' 300 60,
      entry ''h9'' 200 60]"
    by (simp add: board10_def)
  have srt: "sortWith compareHighScores (butlast board10 @ [entry ''high'' 550 45]) =
     [entry ''h1'' 1000 60, entry ''h2'' 900 60, entry ''h3'' 800 60, entry ''h4'' 700 60,
      entry ''h5'' 600 60, entry ''high'' 550 45, entry ''h6'' 500 60, entry ''h7'' 400 60,
      entry ''h8'' 300 60, entry ''h9'' 200 60]"
    unfolding bl by (simp add: sortWith_def compareHighScores_def entry_def)
  from addHighScore_leaderboard [OF ok, of "entry ''low'' 50 30"]
       addHighScore_leaderboard [OF ok, of "entry ''high'' 550 45"]
       ok len low hi srt board10_sorted
  show ?thesis unfolding ld by (simp add: list_all_iff)
qed

text \<open>
  C9. \<^verbatim>\<open>isHighScore\<close> holds exactly when fewer than 10 entries are stored or the score is
  strictly above the score of the last stored entry. With fewer than 10 entries every
  score qualifies, 0 included; with 10 entries a score equal to that of the last entry,
  or equal to the lowest stored score, does not qualify.
\<close>

theorem isHighScore_iff:
  "MAX_HIGH_SCORES = 10 \<and>
   isHighScore st sc =
     (length (loadHighScores st) < 10 \<or> hs_score (last (loadHighScores st)) < sc) \<and>
   (length (loadHighScores st) < 10 \<longrightarrow> isHighScore st 0 \<and> isHighScore st sc) \<and>
   (length (loadHighScores st) = 10 \<and> sc = hs_score (last (loadHighScores st)) \<longrightarrow>
      \<not> isHighScore st sc) \<and>
   (length (loadHighScores st) = 10 \<and>
    (\<exists>e\<in>set (loadHighScores st). hs_score e = sc) \<and>
    (\<forall>e\<in>set (loadHighScores st). sc \<le> hs_score e) \<longrightarrow> \<not> isHighScore st sc)"
proof -
  let ?hs = "loadHighScores st"
  have nth: "?hs ! (length ?hs - 1) = last ?hs" if "\<not> length ?hs < 10"
    using that by (intro last_conv_nth [symmetric]) auto
  have iff: "isHighScore st x = (length ?hs < 10 \<or> hs_score (last ?hs) < x)" for x
    using nth by (auto simp: isHighScore_def MAX_HIGH_SCORES_def Let_def)
  have min: "\<not> isHighScore st sc"
    if len: "length ?hs = 10" and all: "\<forall>e\<in>set ?hs. sc \<le> hs_score e"
  proof -
    have "?hs \<noteq> []" using len by auto
    then have "last ?hs \<in> set ?hs" by simp
    with all have "sc \<le> hs_score (last ?hs)" by blast
    then show ?thesis using len by (simp add: iff)
  qed
  show ?thesis using iff min by (auto simp: MAX_HIGH_SCORES_def)
qed

text \<open>The empty store admits 0; the full board rejects 100 and admits 101.\<close>

theorem isHighScore_iff_witness:
  "length (loadHighScores emptyStore) < 10 \<and> isHighScore emptyStore 0 \<and>
   length (loadHighScores store10) = 10 \<and>
   hs_score (last (loadHighScores store10)) = 100 \<and>
   (\<exists>e\<in>set (loadHighScores store10). hs_score e = 100) \<and>
   list_all (\<lambda>e. 100 \<le> hs_score e) (loadHighScores store10) \<and>
   \<not> isHighScore store10 100 \<and> isHighScore store10 101"
proof -
  have ld: "loadHighScores store10 = board10"
    by (simp add: store10_def loadHighScores_def loadFromStorage_def)
  have le: "loadHighScores emptyStore = []"
    by (simp add: emptyStore_def loadHighScores_def loadFromStorage_def)
  have len: "length board10 = 10" by (simp add: board10_def)
  have lst: "hs_score (last board10) = 100" by (simp add: board10_def entry_def)
  have ex: "\<exists>e\<in>set board10. hs_score e = 100" by (simp add: board10_def entry_def)
  have all: "\<forall>e\<in>set board10. 100 \<le> hs_score e" by (simp add: board10_def entry_def)
  from isHighScore_iff [of emptyStore 0] isHighScore_iff [of store10 100]
       isHighScore_iff [of store10 101] len lst ex all
  show ?thesis unfolding ld le by (simp add: list_all_iff)
qed

section \<open>Properties of the game engine\<close>





























lemma find_distinct_id:
  "distinct (map card_id cs) \<Longrightarrow> c \<in> set cs \<Longrightarrow> find (\<lambda>x. card_id x = card_id c) cs = Some c"
  by (induction cs) (auto simp: image_iff)

text \<open>
  C7. In a session in progress whose cards have distinct ids, a click on a card of the
  deck that is already matched or already face up returns the session as it was: no flip,
  no move counted, \<^verbatim>\<open>flippedCards\<close> untouched.
\<close>

theorem click_on_face_up_card_ignored:
  assumes "isGameStarted s" and "\<not> isGameComplete s" and "\<not> isGamePaused s"
    and "distinct (map card_id (cards s))" and "c \<in> set (cards s)"
    and "isMatched c \<or> isFlipped c"
  shows "handleCardClick s (card_id c) = s"
  using assms by (simp add: handleCardClick_def find_distinct_id canFlipCard_def)

lemma obs_emit:
  "\<not> isCompletionNotice n \<Longrightarrow> completionObs (emit n s) = completionObs s"
  by (simp add: completionObs_def emit_def completionCalls_def)

lemma obs_flipCard: "completionObs (flipCard i s) = completionObs s"
  by (simp add: completionObs_def flipCard_def completionCalls_def)

lemma obs_startGame: "completionObs (startGame s) = completionObs s"
  by (simp add: completionObs_def startGame_def completionCalls_def)

lemma obs_pauseGame: "completionObs (pauseGame s) = completionObs s"
  by (simp add: completionObs_def pauseGame_def completionCalls_def)

lemma obs_resumeGame: "completionObs (resumeGame s) = completionObs s"
  by (simp add: completionObs_def resumeGame_def completionCalls_def)

lemma obs_handleCardClick: "completionObs (handleCardClick s i) = completionObs s"
  by (simp add: completionObs_def handleCardClick_def completionCalls_def Let_def
      flipCard_def startGame_def emit_def split: option.splits)

lemma obs_handleMatch: "completionObs (handleMatch a b p m t s) = completionObs s"
  by (simp add: completionObs_def handleMatch_def completionCalls_def Let_def
      markCardsAsMatched_def emit_def)

lemma obs_unflipTimeout: "completionObs (unflipTimeout a b s) = completionObs s"
  by (simp add: completionObs_def unflipTimeout_def completionCalls_def Let_def
      unflipCards_def emit_def)

lemma obs_processingTimeoutFires: "completionObs (processingTimeoutFires s) = completionObs s"
proof (cases "processingTimeoutRef s")
  case None
  then show ?thesis by (simp add: processingTimeoutFires_def)
next
  case (Some t)
  have r: "completionObs (s\<lparr>processingTimeoutRef := None\<rparr>) = completionObs s"
    by (simp add: completionObs_def completionCalls_def)
  show ?thesis
  proof (cases t)
    case (CompareTimeout a b p m tm)
    with Some r show ?thesis
      by (simp add: processingTimeoutFires_def Let_def obs_handleMatch handleNoMatch_def)
         (simp add: completionObs_def completionCalls_def)
  next
    case (UnflipTimeout a b)
    with Some r show ?thesis
      by (simp add: processingTimeoutFires_def obs_unflipTimeout)
  qed
qed

lemma obs_autoFlipEffect: "completionObs (fst (autoFlipEffect s)) = completionObs s"
  by (simp add: completionObs_def autoFlipEffect_def completionCalls_def Let_def)

lemma obs_autoFlipFirst: "completionObs (autoFlipFirst u s) = completionObs s"
  by (simp add: autoFlipFirst_def obs_flipCard obs_emit)

lemma obs_autoFlipSecond: "completionObs (autoFlipSecond u s) = completionObs s"
  by (simp add: autoFlipSecond_def obs_flipCard obs_emit)

lemma obs_autoFlipResolve: "completionObs (autoFlipResolve u s) = completionObs s"
  by (simp add: completionObs_def autoFlipResolve_def completionCalls_def Let_def emit_def)

lemma obs_handleGameCompletion:
  "completionObs (handleGameCompletion e s) =
     (if gameCompleteTriggeredRef s then completionObs s
      else (True, True,
            (if onGameComplete (props s) then Suc (completionCalls s) else completionCalls s),
            props s))"
  by (simp add: completionObs_def handleGameCompletion_def completionCalls_def Let_def
      emit_def split_beta)

lemma obs_completionEffect:
  "completionObs (completionEffect e s) =
     (if isGameStarted s \<and> \<not> isGameComplete s \<and> \<not> gameCompleteTriggeredRef s \<and>
         length (cards s) > 0 \<and> isGameWon (cards s)
      then (True, True,
            (if onGameComplete (props s) then Suc (completionCalls s) else completionCalls s),
            props s)
      else completionObs s)"
  by (simp add: completionEffect_def obs_handleGameCompletion)

lemma obs_step:
  "completionObs (step e s ev) =
     (if ev = CompletionEffect then completionObs (completionEffect e s) else completionObs s)"
proof (cases ev)
  case TimerTick
  then show ?thesis by (simp add: completionObs_def completionCalls_def)
qed (simp_all add: obs_handleCardClick obs_startGame obs_pauseGame obs_resumeGame
      obs_processingTimeoutFires obs_autoFlipEffect obs_autoFlipFirst obs_autoFlipSecond
      obs_autoFlipResolve)

lemma inv_step: "completionInv s \<Longrightarrow> completionInv (step e s ev) \<and> props (step e s ev) = props s"
proof -
  assume i: "completionInv s"
  have o: "completionObs (step e s ev) =
     (if ev = CompletionEffect then completionObs (completionEffect e s) else completionObs s)"
    by (rule obs_step)
  show ?thesis
  proof (cases "ev = CompletionEffect \<and> isGameStarted s \<and> \<not> isGameComplete s \<and>
         \<not> gameCompleteTriggeredRef s \<and> length (cards s) > 0 \<and> isGameWon (cards s)")
    case True
    with o have "completionObs (step e s ev) =
       (True, True,
        (if onGameComplete (props s) then Suc (completionCalls s) else completionCalls s),
        props s)"
      by (simp add: obs_completionEffect)
    with i True show ?thesis by (simp add: completionObs_def completionInv_def)
  next
    case False
    with o have "completionObs (step e s ev) = completionObs s"
      by (auto simp: obs_completionEffect)
    with i show ?thesis by (simp add: completionObs_def completionInv_def)
  qed
qed

lemma inv_run: "completionInv s \<Longrightarrow> completionInv (run e s evs) \<and> props (run e s evs) = props s"
  unfolding run_def
proof (induction evs arbitrary: s)
  case Nil
  then show ?case by simp
next
  case (Cons ev evs)
  from inv_step [OF Cons.prems, of e ev]
  have a: "completionInv (step e s ev)" and b: "props (step e s ev) = props s" by simp_all
  from Cons.IH [OF a] b show ?case by simp
qed

lemma done_step:
  "isGameComplete s \<Longrightarrow> gameCompleteTriggeredRef s \<Longrightarrow>
   completionObs (step e s ev) = completionObs s"
  by (simp add: obs_step obs_completionEffect)

lemma done_run:
  "isGameComplete s \<Longrightarrow> gameCompleteTriggeredRef s \<Longrightarrow>
   completionObs (run e s evs) = completionObs s"
  unfolding run_def
proof (induction evs arbitrary: s)
  case Nil
  then show ?case by simp
next
  case (Cons ev evs)
  have o: "completionObs (step e s ev) = completionObs s"
    using Cons.prems by (rule done_step)
  then have "isGameComplete (step e s ev)" "gameCompleteTriggeredRef (step e s ev)"
    using Cons.prems by (simp_all add: completionObs_def)
  from Cons.IH [OF this] o show ?case by simp
qed

lemma click_when_complete: "isGameComplete s \<Longrightarrow> handleCardClick s i = s"
  by (simp add: handleCardClick_def canFlipCard_def split: option.splits)

text \<open>
  C3. In a completed session a click returns the session as it was. From a session that
  is not complete, whose one-shot flag is down and whose completion callback was never
  called, any sequence of events leads to a session in which the callback was called
  exactly once if the session is complete and the callback was passed, and not at all
  otherwise; the one-shot flag is up exactly when the session is complete. From a
  completed session no sequence of events calls the callback again.
\<close>

theorem completion_fires_once:
  "(isGameComplete s \<longrightarrow> handleCardClick s cardId = s) \<and>
   (\<not> isGameComplete s \<and> \<not> gameCompleteTriggeredRef s \<and> completionCalls s = 0 \<longrightarrow>
      completionCalls (run e s evs) =
        (if isGameComplete (run e s evs) \<and> onGameComplete (props s) then 1 else 0) \<and>
      gameCompleteTriggeredRef (run e s evs) = isGameComplete (run e s evs)) \<and>
   (isGameComplete s \<and> gameCompleteTriggeredRef s \<longrightarrow>
      isGameComplete (run e s evs) \<and> gameCompleteTriggeredRef (run e s evs) \<and>
      completionCalls (run e s evs) = completionCalls s)"
proof -
  have a: "handleCardClick s cardId = s" if "isGameComplete s"
    using that by (rule click_when_complete)
  have b: "completionCalls (run e s evs) =
        (if isGameComplete (run e s evs) \<and> onGameComplete (props s) then 1 else 0) \<and>
      gameCompleteTriggeredRef (run e s evs) = isGameComplete (run e s evs)"
    if "\<not> isGameComplete s \<and> \<not> gameCompleteTriggeredRef s \<and> completionCalls s = 0"
  proof -
    have "completionInv s" using that by (simp add: completionInv_def)
    from inv_run [OF this, of e evs] show ?thesis by (simp add: completionInv_def)
  qed
  have c: "isGameComplete (run e s evs) \<and> gameCompleteTriggeredRef (run e s evs) \<and>
      completionCalls (run e s evs) = completionCalls s"
    if "isGameComplete s \<and> gameCompleteTriggeredRef s"
  proof -
    from that done_run [of s e evs] have "completionObs (run e s evs) = completionObs s" by simp
    with that show ?thesis by (simp add: completionObs_def)
  qed
  from a b c show ?thesis by blast
qed

lemma wonSession_facts:
  "isGameStarted wonSession" "\<not> isGameComplete wonSession"
  "\<not> gameCompleteTriggeredRef wonSession" "completionCalls wonSession = 0"
  "length (cards wonSession) > 0" "isGameWon (cards wonSession)"
  "onGameComplete (props wonSession)"
  by (simp_all add: wonSession_def markCardsAsMatched_def startGame_def newSession_def
      exampleDeck_def exampleCard_def exampleProps_def completionCalls_def isGameWon_def)

text \<open>
  The session with every card matched completes at the first completion check; a click
  and a second check change nothing and the callback has been called once.
\<close>

theorem completion_fires_once_witness:
  "\<not> isGameComplete wonSession \<and> \<not> gameCompleteTriggeredRef wonSession \<and>
   completionCalls wonSession = 0 \<and>
   isGameComplete (run env1 wonSession [CompletionEffect, CardClick ''c1'', CompletionEffect]) \<and>
   completionCalls (run env1 wonSession [CompletionEffect, CardClick ''c1'', CompletionEffect]) = 1 \<and>
   isGameComplete (completionEffect env1 wonSession) \<and>
   gameCompleteTriggeredRef (completionEffect env1 wonSession) \<and>
   handleCardClick (completionEffect env1 wonSession) ''c1'' = completionEffect env1 wonSession \<and>
   completionCalls (run env1 (completionEffect env1 wonSession)
      [CardClick ''c1'', CompletionEffect, TimeoutFires]) = 1"
proof -
  let ?s = "completionEffect env1 wonSession"
  have o: "completionObs ?s = (True, True, 1, props wonSession)"
    using wonSession_facts by (simp add: obs_completionEffect)
  then have d: "isGameComplete ?s" "gameCompleteTriggeredRef ?s" "completionCalls ?s = 1"
    by (simp_all add: completionObs_def)
  have r: "run env1 wonSession [CompletionEffect, CardClick ''c1'', CompletionEffect] =
           run env1 ?s [CardClick ''c1'', CompletionEffect]"
    by (simp add: run_def)
  have "completionObs (run env1 ?s [CardClick ''c1'', CompletionEffect]) = completionObs ?s"
    using d by (intro done_run)
  then have c: "isGameComplete (run env1 wonSession [CompletionEffect, CardClick ''c1'', CompletionEffect])"
    using d r by (simp add: completionObs_def)
  from completion_fires_once [of wonSession "''c1''" env1 "[CompletionEffect, CardClick ''c1'', CompletionEffect]"]
       completion_fires_once [of ?s "''c1''" env1 "[CardClick ''c1'', CompletionEffect, TimeoutFires]"]
       wonSession_facts c d
  show ?thesis by simp
qed

lemma playingSession_facts:
  "isGameStarted playingSession" "\<not> isGameComplete playingSession"
  "\<not> isGamePaused playingSession"
  "distinct (map card_id (cards playingSession))"
  "(exampleCard ''c1'' ''pair-0'')\<lparr>isFlipped := True\<rparr> \<in> set (cards playingSession)"
  "moves playingSession = 0" "length (flippedCards playingSession) = 1"
  by (simp_all add: playingSession_def handleCardClick_def canFlipCard_def flipCard_def
      emit_def Let_def startGame_def newSession_def exampleDeck_def exampleCard_def
      exampleProps_def)

text \<open>In the session where card c1 is face up, a second click on c1 changes nothing.\<close>

theorem click_on_face_up_card_ignored_witness:
  "isGameStarted playingSession \<and> \<not> isGameComplete playingSession \<and>
   \<not> isGamePaused playingSession \<and> distinct (map card_id (cards playingSession)) \<and>
   (exampleCard ''c1'' ''pair-0'')\<lparr>isFlipped := True\<rparr> \<in> set (cards playingSession) \<and>
   isFlipped ((exampleCard ''c1'' ''pair-0'')\<lparr>isFlipped := True\<rparr>) \<and>
   handleCardClick playingSession ''c1'' = playingSession \<and>
   moves (handleCardClick playingSession ''c1'') = 0 \<and>
   length (flippedCards (handleCardClick playingSession ''c1'')) = 1"
proof -
  have "isMatched ((exampleCard ''c1'' ''pair-0'')\<lparr>isFlipped := True\<rparr>) \<or>
        isFlipped ((exampleCard ''c1'' ''pair-0'')\<lparr>isFlipped := True\<rparr>)" by simp
  from click_on_face_up_card_ignored [OF playingSession_facts(1-5) this] playingSession_facts
  show ?thesis by (simp add: exampleCard_def)
qed


lemma autoFlipEffect_fires:
  assumes "isGameStarted s" "\<not> isGamePaused s" "\<not> isProcessing s" "\<not> isGameComplete s"
    and "totalPairs s - real_of_int (matchedPairs s) = 1"
    and "filter (\<lambda>c. \<not> isMatched c) (cards s) = [a, b]"
  shows "autoFlipEffect s = (s\<lparr>isProcessing := True\<rparr>, Some (a, b))"
proof -
  have "cards s \<noteq> []" using assms(6) by auto
  then have "totalPairs s > 0" by (simp add: totalPairs_def)
  with assms show ?thesis by (simp add: autoFlipEffect_def Let_def)
qed

lemma unmatched_is_one_of:
  "filter (\<lambda>c. \<not> isMatched c) cs = [a, b] \<Longrightarrow> c \<in> set cs \<Longrightarrow> \<not> isMatched c \<Longrightarrow>
   c = a \<or> c = b"
proof -
  assume f: "filter (\<lambda>c. \<not> isMatched c) cs = [a, b]" and c: "c \<in> set cs" and n: "\<not> isMatched c"
  from c n have "c \<in> set (filter (\<lambda>c. \<not> isMatched c) cs)" by simp
  with f show ?thesis by simp
qed

text \<open>
  C8. In a session in progress that is not processing a comparison, with exactly one pair
  left (\<^verbatim>\<open>totalPairs - matchedPairs = 1\<close>, the unmatched cards being two cards that match),
  the last-pair effect and its three timeouts mark every card matched, raise
  \<^verbatim>\<open>matchedPairs\<close> by one and leave \<^verbatim>\<open>moves\<close> as it was.
\<close>

theorem last_pair_resolved_without_move:
  assumes started: "isGameStarted s" and running: "\<not> isGamePaused s"
    and idle: "\<not> isProcessing s" and open_game: "\<not> isGameComplete s"
    and one_left: "totalPairs s - real_of_int (matchedPairs s) = 1"
    and unmatched: "filter (\<lambda>c. \<not> isMatched c) (cards s) = [a, b]"
    and pair: "checkCardsMatch a b"
  shows "moves (autoResolve s) = moves s \<and>
         matchedPairs (autoResolve s) = matchedPairs s + 1 \<and>
         list_all isMatched (cards (autoResolve s)) \<and>
         map card_id (cards (autoResolve s)) = map card_id (cards s) \<and>
         map pairId (cards (autoResolve s)) = map pairId (cards s) \<and>
         flippedCards (autoResolve s) = [] \<and>
         \<not> isProcessing (autoResolve s)"
proof -
  let ?f = "\<lambda>c. if card_id c = card_id a \<or> card_id c = card_id b
                 then c\<lparr>isMatched := True, isFlipped := True\<rparr> else c"
  let ?g = "\<lambda>c. if card_id c = card_id b then c\<lparr>isFlipped := True\<rparr> else c"
  let ?h = "\<lambda>c. if card_id c = card_id a then c\<lparr>isFlipped := True\<rparr> else c"
  have eff: "autoFlipEffect s = (s\<lparr>isProcessing := True\<rparr>, Some (a, b))"
    using started running idle open_game one_left unmatched by (rule autoFlipEffect_fires)
  have res: "autoResolve s =
     autoFlipResolve (a, b) (autoFlipSecond (a, b) (autoFlipFirst (a, b) (s\<lparr>isProcessing := True\<rparr>)))"
    by (simp add: autoResolve_def eff)
  have cs: "cards (autoResolve s) = map ?f (map ?g (map ?h (cards s)))"
    using pair
    by (simp add: res autoFlipResolve_def autoFlipSecond_def autoFlipFirst_def flipCard_def
        emit_def Let_def)
  have mv: "moves (autoResolve s) = moves s"
    using pair
    by (simp add: res autoFlipResolve_def autoFlipSecond_def autoFlipFirst_def flipCard_def
        emit_def Let_def)
  have mp: "matchedPairs (autoResolve s) = matchedPairs s + 1"
    using pair
    by (simp add: res autoFlipResolve_def autoFlipSecond_def autoFlipFirst_def flipCard_def
        emit_def Let_def)
  have fl: "flippedCards (autoResolve s) = [] \<and> \<not> isProcessing (autoResolve s)"
    using pair
    by (simp add: res autoFlipResolve_def autoFlipSecond_def autoFlipFirst_def flipCard_def
        emit_def Let_def)
  have all: "list_all isMatched (cards (autoResolve s))"
    unfolding cs list_all_iff
  proof
    fix x assume "x \<in> set (map ?f (map ?g (map ?h (cards s))))"
    then obtain c where c: "c \<in> set (cards s)" and x: "x = ?f (?g (?h c))" by auto
    show "isMatched x"
    proof (cases "isMatched c")
      case True
      with x show ?thesis by simp
    next
      case False
      from unmatched_is_one_of [OF unmatched c False] have "c = a \<or> c = b" .
      with x show ?thesis by auto
    qed
  qed
  have ids: "map card_id (cards (autoResolve s)) = map card_id (cards s)"
    unfolding cs by (induction "cards s") auto
  have pids: "map pairId (cards (autoResolve s)) = map pairId (cards s)"
    unfolding cs by (induction "cards s") auto
  from mv mp all ids pids fl show ?thesis by simp
qed

lemma lastPairSession_facts:
  "isGameStarted lastPairSession" "\<not> isGamePaused lastPairSession"
  "\<not> isProcessing lastPairSession" "\<not> isGameComplete lastPairSession"
  "totalPairs lastPairSession - real_of_int (matchedPairs lastPairSession) = 1"
  "filter (\<lambda>c. \<not> isMatched c) (cards lastPairSession) =
     [exampleCard ''c7'' ''pair-3'', exampleCard ''c8'' ''pair-3'']"
  "checkCardsMatch (exampleCard ''c7'' ''pair-3'') (exampleCard ''c8'' ''pair-3'')"
  "moves lastPairSession = 5" "matchedPairs lastPairSession = 3"
  by (simp_all add: lastPairSession_def markCardsAsMatched_def startGame_def newSession_def
      exampleDeck_def exampleCard_def totalPairs_def checkCardsMatch_def)

text \<open>With pairs 0 to 2 matched after five moves, the last pair resolves; moves stay 5.\<close>

theorem last_pair_resolved_without_move_witness:
  "isGameStarted lastPairSession \<and> \<not> isGamePaused lastPairSession \<and>
   \<not> isProcessing lastPairSession \<and> \<not> isGameComplete lastPairSession \<and>
   totalPairs lastPairSession - real_of_int (matchedPairs lastPairSession) = 1 \<and>
   filter (\<lambda>c. \<not> isMatched c) (cards lastPairSession) =
     [exampleCard ''c7'' ''pair-3'', exampleCard ''c8'' ''pair-3''] \<and>
   checkCardsMatch (exampleCard ''c7'' ''pair-3'') (exampleCard ''c8'' ''pair-3'') \<and>
   moves lastPairSession = 5 \<and> moves (autoResolve lastPairSession) = 5 \<and>
   matchedPairs lastPairSession = 3 \<and> matchedPairs (autoResolve lastPairSession) = 4 \<and>
   list_all isMatched (cards (autoResolve lastPairSession))"
  using last_pair_resolved_without_move [OF lastPairSession_facts(1-7)] lastPairSession_facts
  by simp

end
